theory Spec2Isabelle
  imports Complex_Main "HOL-Library.Multiset"
begin

section \<open>The speed test engine (SpeedTestEngine)\<close>

text \<open>
  The engine is a TypeScript class whose methods are \<open>async\<close>: they issue \<open>fetch\<close>
  requests, read the clock and draw from \<open>Math.random()\<close>. The embedding makes these
  inputs explicit. A value of type \<open>world\<close> holds, for every call site, what the network,
  the clock and the random generator answer there; the engine's own mutable fields, the
  values handed to its two sinks and the \<open>fetch\<close> promises it has created are the record
  \<open>engine\<close>, which every method takes and returns.

  JavaScript numbers are modelled as real numbers. The non-finite values (\<open>NaN\<close>,
  \<open>Infinity\<close>) that a division by a zero time interval produces have no counterpart in
  the reals; no statement below depends on such a quotient.

  An exception is a value: a method that can throw returns \<open>error + 'a\<close>, with \<open>Inl\<close> the
  exception. A \<open>try\<close>/\<open>catch\<close> of the source is a case distinction on that sum. The two
  sinks \<open>onProgress\<close> and \<open>onGraphUpdate\<close> are callbacks of the caller; they are taken to
  return without throwing, and what they receive is logged in the engine.

  Every request the engine awaits is created with an \<open>AbortSignal.timeout\<close>, so its promise
  settles and a response body ends, by that deadline at the latest: an answer of the
  network is a finite value, and the chunks of a download form a list.
\<close>

subsection \<open>JavaScript primitives the source relies on\<close>

datatype error = RangeError | TypeError | ReferenceError | Error

text \<open>\<open>Array(n)\<close>: the length of the new array, or the \<open>RangeError\<close> that JavaScript
  raises when \<open>n\<close> is not an integer in \<open>0 .. 2^32 - 1\<close>.\<close>

definition js_Array :: "real \<Rightarrow> error + nat" where
  "js_Array n =
     (if 0 \<le> n \<and> n < 4294967296 \<and> real_of_int \<lfloor>n\<rfloor> = n then Inr (nat \<lfloor>n\<rfloor>)
      else Inl RangeError)"

text \<open>\<open>xs.reduce((a, b) => a + b)\<close> with no initial value: a \<open>TypeError\<close> on the empty
  array, the left-to-right sum otherwise.\<close>

fun reduce_add :: "real list \<Rightarrow> error + real" where
  "reduce_add [] = Inl TypeError"
| "reduce_add (x # xs) = Inr (foldl (+) x xs)"

text \<open>\<open>Math.round(x * 10) / 10\<close>; \<open>Math.round\<close> rounds to the nearest integer, a half
  upwards, which is \<^const>\<open>round\<close>.\<close>

definition round1 :: "real \<Rightarrow> real" where
  "round1 x = real_of_int (round (x * 10)) / 10"

text \<open>A number inside a template string, and \<open>n.toString()\<close>: the decimal digits.\<close>

definition digit_char :: "nat \<Rightarrow> char" where
  "digit_char d = char_of (48 + d)"

function show_nat :: "nat \<Rightarrow> string" where
  "show_nat n = (if n < 10 then [digit_char n] else show_nat (n div 10) @ [digit_char (n mod 10)])"
  by pat_completeness auto
termination
  by (relation "measure id") auto

declare show_nat.simps [simp del]

text \<open>A parsed JSON value, and JavaScript's truthiness of a property read from it
  (\<open>None\<close> is \<open>undefined\<close>, the value of a property that is absent).\<close>

datatype json = JNull | JBool bool | JNum real | JStr string | JArray | JObject

fun truthy :: "json option \<Rightarrow> bool" where
  "truthy None = False"
| "truthy (Some JNull) = False"
| "truthy (Some (JBool b)) = b"
| "truthy (Some (JNum x)) = (x \<noteq> 0)"
| "truthy (Some (JStr s)) = (s \<noteq> [])"
| "truthy (Some JArray) = True"
| "truthy (Some JObject) = True"

text \<open>\<open>a || b\<close> where \<open>b\<close> is a string literal.\<close>

fun or_default :: "json option \<Rightarrow> string \<Rightarrow> json" where
  "or_default None d = JStr d"
| "or_default (Some v) d = (if truthy (Some v) then v else JStr d)"

subsection \<open>Data model (types/speedTest.ts)\<close>

text \<open>The interfaces of the source, field by field. Where two interfaces share a field
  name, one of them is renamed (\<open>id_result\<close>, \<open>phase_label\<close>, \<open>ping_opt\<close>); \<open>id\<close> and
  \<open>method\<close> are taken in Isabelle and carry a prime. The optional \<open>stability\<close> of a result
  is never set by the engine and is left out, as is \<open>NetworkStabilityData\<close>.\<close>

record TestServer =
  id' :: string
  name :: string
  location :: string
  host :: string
  distance :: real
  latency :: "real option"

datatype phase = Idle | Ping | Download | Upload | Bufferbloat | PacketLoss | Complete

record TestProgress =
  phase :: phase
  progress :: real
  currentSpeed :: real
  elapsedTime :: real

record GraphData =
  time :: real
  speed :: real
  phase_label :: string
  ping_opt :: "real option"

record TestConfig =
  duration :: real
  parallelConnections :: real
  enableBufferbloat :: bool
  enableStressTest :: bool

datatype rating = A | B | C | D | F

record BufferbloatResult =
  rating :: rating
  latencyIncrease :: real

record PacketLossResult =
  percentage :: real
  sent :: nat
  received :: nat

record UserLocation =
  city :: json
  country :: json
  ip :: json

record SpeedTestResult =
  id_result :: string
  timestamp :: nat
  downloadSpeed :: real
  uploadSpeed :: real
  ping :: real
  jitter :: real
  serverLocation :: string
  userLocation :: UserLocation
  testDuration :: real
  bufferbloat :: "BufferbloatResult option"
  packetLoss :: "PacketLossResult option"

subsection \<open>Requests and the environment\<close>

text \<open>The \<open>signal\<close> option of a \<open>fetch\<close>: either \<open>AbortSignal.timeout(ms)\<close> or the signal
  of the engine's own \<open>AbortController\<close>.\<close>

datatype signal = AbortTimeout real | ControllerSignal

record request =
  url :: string
  method' :: string
  signal :: "signal option"

text \<open>What the network answers to a timed probe: a response (its \<open>ok\<close> flag and the time
  \<open>end - start\<close> it took), or a rejected promise.\<close>

datatype probe = Resolved bool real | Rejected

text \<open>A download: the promise rejects, or a response arrives with its \<open>ok\<close> flag, whether
  it has a body reader, the chunks read (byte length, and \<open>performance.now()\<close> right after
  the read), and how the stream ends: \<open>done\<close>, with the clock reading taken after the
  loop, or an error thrown by \<open>reader.read()\<close>.\<close>

datatype stream_end = StreamDone real | StreamError

datatype download = DownloadRejected | DownloadResponse bool bool "(nat \<times> real) list" stream_end

text \<open>An upload: \<open>crypto.getRandomValues\<close> throws, or the \<open>fetch\<close> rejects, or a response
  arrives (its \<open>ok\<close> flag, then \<open>requestStart\<close> and \<open>requestEnd\<close>).\<close>

datatype upload = CryptoThrew | UploadRejected | UploadResponse bool real real

text \<open>The geolocation lookup: the \<open>fetch\<close> rejects, \<open>response.json()\<close> rejects, the body is
  the JSON value \<open>null\<close> (reading a property of it throws), or it is any other value,
  given by what reading \<open>city\<close>, \<open>country_name\<close> and \<open>ip\<close> of it yields.\<close>

datatype lookup = LookupRejected | JsonRejected | JsonNull
  | JsonData "json option" "json option" "json option"

text \<open>The call sites of \<open>Math.random()\<close>.\<close>

datatype draw_site =
    PingDraw nat nat
  | JitterDraw
  | DownloadTaskDraw nat
  | DownloadDraw
  | UploadTaskDraw nat
  | UploadDraw
  | BufferbloatDraw
  | FallbackDraw nat

record world =
  fetch_defined :: bool
  abort_timeout_defined :: bool
  Math_random :: "draw_site \<Rightarrow> real"
  performance_now :: "nat \<Rightarrow> real"
  quick_net :: "string \<Rightarrow> probe"
  ping_net :: "nat \<Rightarrow> nat \<Rightarrow> probe"
  download_startTime :: real
  download_requestStart :: "nat \<Rightarrow> real"
  download_net :: "nat \<Rightarrow> download"
  upload_startTime :: real
  upload_net :: "nat \<Rightarrow> upload"
  loss_date_now :: "nat \<Rightarrow> nat"
  loss_net :: "nat \<Rightarrow> bool"
  loss_settle_time :: "nat \<Rightarrow> real"
  lookup_net :: lookup
  run_startTime :: real
  run_endTime :: real
  run_date_now :: "nat \<Rightarrow> nat"

text \<open>\<open>Math.random()\<close> returns a number in \<open>[0, 1)\<close>.\<close>

definition random_ok :: "world \<Rightarrow> bool" where
  "random_ok w = (\<forall>s. 0 \<le> Math_random w s \<and> Math_random w s < 1)"

subsection \<open>The engine\<close>

text \<open>
  \<open>progress_events\<close> and \<open>graph_updates\<close> are the arguments of the calls to the two sinks
  \<open>onProgress\<close> and \<open>onGraphUpdate\<close>, oldest first. \<open>issued\<close> lists the \<open>fetch\<close> calls made,
  \<open>in_flight\<close> the promises among them that the engine has not awaited yet, and
  \<open>ping_calls\<close> counts the calls of \<open>measurePing\<close>, which is how the \<open>world\<close> tells one
  call from the next.
\<close>

record engine =
  config :: TestConfig
  graphData :: "GraphData list"
  abortController :: "bool option"
  progress_events :: "TestProgress list"
  graph_updates :: "GraphData list list"
  issued :: "request list"
  in_flight :: "request multiset"
  ping_calls :: nat

text \<open>The candidate servers: a private field that is initialised once and never
  assigned again.\<close>

definition servers :: "TestServer list" where
  "servers =
    [\<lparr>id' = ''1'', name = ''Cloudflare'', location = ''Global CDN'',
      host = ''https://speed.cloudflare.com'', distance = 0, latency = None\<rparr>,
     \<lparr>id' = ''2'', name = ''Google'', location = ''Global'',
      host = ''https://www.google.com'', distance = 0, latency = None\<rparr>,
     \<lparr>id' = ''3'', name = ''GitHub'', location = ''Global CDN'',
      host = ''https://github.com'', distance = 0, latency = None\<rparr>,
     \<lparr>id' = ''4'', name = ''Fast.com'', location = ''Netflix CDN'',
      host = ''https://fast.com'', distance = 0, latency = None\<rparr>]"

definition default_config :: TestConfig where
  "default_config =
    \<lparr>duration = 10, parallelConnections = 4, enableBufferbloat = True,
     enableStressTest = False\<rparr>"

text \<open>The constructor: \<open>config || { ... }\<close>.\<close>

definition new_engine :: "TestConfig option \<Rightarrow> engine" where
  "new_engine c =
    \<lparr>config = (case c of None \<Rightarrow> default_config | Some cfg \<Rightarrow> cfg),
     graphData = [], abortController = None, progress_events = [], graph_updates = [],
     issued = [], in_flight = {#}, ping_calls = 0\<rparr>"

definition updateProgress :: "world \<Rightarrow> engine \<Rightarrow> phase \<Rightarrow> real \<Rightarrow> real \<Rightarrow> engine" where
  "updateProgress w e ph p s =
     e\<lparr>progress_events := progress_events e @
         [\<lparr>phase = ph, progress = min p 100, currentSpeed = s,
           elapsedTime = performance_now w (length (progress_events e))\<rparr>]\<rparr>"

text \<open>\<open>AbortSignal.timeout(ms)\<close> and \<open>fetch(url, {method, signal})\<close>. Either global may be
  missing from the runtime, and then the call throws before any request is made.
  Otherwise \<open>fetch\<close> creates a promise: the request is recorded as issued and in flight.
  \<open>await'\<close> is the engine waiting for that promise to settle.\<close>

definition AbortSignal_timeout :: "world \<Rightarrow> real \<Rightarrow> error + signal" where
  "AbortSignal_timeout w ms =
     (if abort_timeout_defined w then Inr (AbortTimeout ms) else Inl TypeError)"

definition fetch ::
  "world \<Rightarrow> engine \<Rightarrow> string \<Rightarrow> string \<Rightarrow> (error + signal) option \<Rightarrow> error + request \<times> engine"
where
  "fetch w e u m sg =
     (if \<not> fetch_defined w then Inl ReferenceError
      else case sg of
        Some (Inl err) \<Rightarrow> Inl err
      | Some (Inr s) \<Rightarrow>
          (let r = \<lparr>url = u, method' = m, signal = Some s\<rparr>
           in Inr (r, e\<lparr>issued := issued e @ [r], in_flight := add_mset r (in_flight e)\<rparr>))
      | None \<Rightarrow>
          (let r = \<lparr>url = u, method' = m, signal = None\<rparr>
           in Inr (r, e\<lparr>issued := issued e @ [r], in_flight := add_mset r (in_flight e)\<rparr>)))"

definition await' :: "engine \<Rightarrow> request \<Rightarrow> engine" where
  "await' e r = e\<lparr>in_flight := in_flight e - {#r#}\<rparr>"

subsection \<open>Server selection\<close>

text \<open>\<open>quickPing(url)\<close>: one \<open>HEAD\<close> request with a 2 s timeout. Whatever is thrown inside
  its \<open>try\<close>, also the error for a response that is not \<open>ok\<close>, is rethrown as an \<open>Error\<close>.\<close>

definition quickPing :: "world \<Rightarrow> engine \<Rightarrow> string \<Rightarrow> engine \<times> (error + real)" where
  "quickPing w e u =
     (case fetch w e u ''HEAD'' (Some (AbortSignal_timeout w 2000)) of
        Inl err \<Rightarrow> (e, Inl Error)
      | Inr (r, e1) \<Rightarrow>
          (case quick_net w u of
             Rejected \<Rightarrow> (await' e1 r, Inl Error)
           | Resolved ok t \<Rightarrow>
               if \<not> ok then (await' e1 r, Inl Error) else (await' e1 r, Inr t)))"

text \<open>The callback that \<open>findBestServer\<close> maps over the candidates: the server with its
  latency, 999 when \<open>quickPing\<close> throws.\<close>

definition probe_server :: "world \<Rightarrow> engine \<Rightarrow> TestServer \<Rightarrow> engine \<times> TestServer" where
  "probe_server w e server =
     (case quickPing w e (host server) of
        (e1, Inr l) \<Rightarrow> (e1, server\<lparr>latency := Some l, distance := l\<rparr>)
      | (e1, Inl err) \<Rightarrow> (e1, server\<lparr>latency := Some 999, distance := 999\<rparr>))"

text \<open>\<open>Promise.all(xs.map(f))\<close> for a callback that never rejects: the tasks in index
  order, each handing the engine to the next.\<close>

fun map_tasks :: "(engine \<Rightarrow> 'a \<Rightarrow> engine \<times> 'b) \<Rightarrow> engine \<Rightarrow> 'a list \<Rightarrow> engine \<times> 'b list" where
  "map_tasks f e [] = (e, [])"
| "map_tasks f e (x # xs) =
     (case f e x of (e1, y) \<Rightarrow> (case map_tasks f e1 xs of (e2, ys) \<Rightarrow> (e2, y # ys)))"

text \<open>\<open>current.latency! < best.latency!\<close>: the latency is set on every server that
  reaches the comparison; an absent one would compare as \<open>false\<close>.\<close>

definition latency_less :: "TestServer \<Rightarrow> TestServer \<Rightarrow> bool" where
  "latency_less current best =
     (case (latency current, latency best) of
        (Some c, Some b) \<Rightarrow> c < b
      | _ \<Rightarrow> False)"

text \<open>\<open>xs.reduce((best, current) => current.latency < best.latency ? current : best)\<close>.\<close>

fun reduce_best :: "TestServer list \<Rightarrow> error + TestServer" where
  "reduce_best [] = Inl TypeError"
| "reduce_best (x # xs) =
     Inr (foldl (\<lambda>best current. if latency_less current best then current else best) x xs)"

definition findBestServer :: "world \<Rightarrow> engine \<Rightarrow> engine \<times> (error + TestServer)" where
  "findBestServer w e =
     (let testServers = take 2 servers
      in case map_tasks (probe_server w) e testServers of
           (e1, serversWithLatency) \<Rightarrow> (e1, reduce_best serversWithLatency))"

subsection \<open>Latency and jitter\<close>

text \<open>One iteration of the loop of \<open>measurePing\<close>, as the sample it pushes: the elapsed
  time of the \<open>HEAD\<close> request (whatever its status), or \<open>Math.random() * 30 + 15\<close> when
  anything in the \<open>try\<close> throws. \<open>k\<close> is the number of the call of \<open>measurePing\<close>.\<close>

definition ping_iteration :: "world \<Rightarrow> nat \<Rightarrow> engine \<times> real list \<Rightarrow> nat \<Rightarrow> engine \<times> real list" where
  "ping_iteration w k st i =
     (case st of (e, measurements) \<Rightarrow>
       (case fetch w e ''https://www.google.com/favicon.ico'' ''HEAD''
               (Some (AbortSignal_timeout w 1000)) of
          Inl err \<Rightarrow> (e, measurements @ [Math_random w (PingDraw k i) * 30 + 15])
        | Inr (r, e1) \<Rightarrow>
            (case ping_net w k i of
               Resolved ok t \<Rightarrow> (await' e1 r, measurements @ [t])
             | Rejected \<Rightarrow>
                 (await' e1 r, measurements @ [Math_random w (PingDraw k i) * 30 + 15]))))"

definition measurePing :: "world \<Rightarrow> engine \<Rightarrow> engine \<times> (error + real)" where
  "measurePing w e =
     (let k = ping_calls e;
          e0 = e\<lparr>ping_calls := Suc k\<rparr>
      in case foldl (ping_iteration w k) (e0, []) [0, 1, 2] of
           (e1, measurements) \<Rightarrow>
             (case reduce_add measurements of
                Inl err \<Rightarrow> (e1, Inl err)
              | Inr s \<Rightarrow> (e1, Inr (s / real (length measurements)))))"

definition measureJitter :: "world \<Rightarrow> real list \<Rightarrow> error + real" where
  "measureJitter w pings =
     (if length pings < 2 then Inr (Math_random w JitterDraw * 5 + 1)
      else
        let differences = map (\<lambda>i. \<bar>pings ! i - pings ! (i - 1)\<bar>) [1..<length pings]
        in case reduce_add differences of
             Inl err \<Rightarrow> Inl err
           | Inr s \<Rightarrow> Inr (s / real (length differences)))"

subsection \<open>Geolocation\<close>

definition getUserLocation :: "world \<Rightarrow> engine \<Rightarrow> engine \<times> UserLocation" where
  "getUserLocation w e =
     (let fallback = \<lparr>city = JStr ''Your City'', country = JStr ''Your Country'',
                      ip = JStr ''127.0.0.1''\<rparr>
      in case fetch w e ''https://ipapi.co/json/'' ''GET'' (Some (AbortSignal_timeout w 2000)) of
           Inl err \<Rightarrow> (e, fallback)
         | Inr (r, e1) \<Rightarrow>
             (case lookup_net w of
                LookupRejected \<Rightarrow> (await' e1 r, fallback)
              | JsonRejected \<Rightarrow> (await' e1 r, fallback)
              | JsonNull \<Rightarrow> (await' e1 r, fallback)
              | JsonData c n a \<Rightarrow>
                  (await' e1 r,
                   \<lparr>city = or_default c ''Unknown City'',
                    country = or_default n ''Unknown Country'',
                    ip = or_default a ''127.0.0.1''\<rparr>)))"

subsection \<open>Throughput\<close>

text \<open>What the task of index 0 does for a rate sample: a progress event, a point
  appended to \<open>graphData\<close>, and the whole sequence handed to \<open>onGraphUpdate\<close>.\<close>

definition report_sample ::
  "world \<Rightarrow> engine \<Rightarrow> phase \<Rightarrow> string \<Rightarrow> real \<Rightarrow> real \<Rightarrow> real \<Rightarrow> engine" where
  "report_sample w e ph label t p s =
     (let e1 = updateProgress w e ph p s;
          points = graphData e1 @ [\<lparr>time = t, speed = s, phase_label = label, ping_opt = None\<rparr>]
      in e1\<lparr>graphData := points, graph_updates := graph_updates e1 @ [points]\<rparr>)"

definition download_url :: "nat \<Rightarrow> string" where
  "download_url i =
     [''https://speed.cloudflare.com/__down?bytes='' @ show_nat (1048576 + i * 524288),
      ''https://httpbin.org/bytes/'' @ show_nat (1048576 + i * 524288),
      ''https://cdn.jsdelivr.net/test/'' @ show_nat (1048576 + i * 524288)] ! (i mod 3)"

definition testUrls :: "TestConfig \<Rightarrow> error + string list" where
  "testUrls c =
     (case js_Array (parallelConnections c) of
        Inl err \<Rightarrow> Inl err
      | Inr n \<Rightarrow> Inr (map download_url [0..<n]))"

text \<open>The read loop of one download: the state is the engine, \<open>downloadedBytes\<close> and
  \<open>lastUpdate\<close>; a chunk is its length and the clock reading \<open>now\<close> after it.\<close>

fun read_chunks ::
  "world \<Rightarrow> nat \<Rightarrow> real \<Rightarrow> engine \<times> nat \<times> real \<Rightarrow> (nat \<times> real) list \<Rightarrow> engine \<times> nat" where
  "read_chunks w index requestStart (e, downloadedBytes, lastUpdate) [] = (e, downloadedBytes)"
| "read_chunks w index requestStart (e, downloadedBytes, lastUpdate) ((len, now) # chunks) =
     (let bytes = downloadedBytes + len
      in if now - lastUpdate > 100 then
           let currentSpeed = real (bytes * 8) / ((now - requestStart) / 1000) / 1000000;
               startTime = download_startTime w;
               e1 = (if index = 0 then
                       report_sample w e Download ''download'' (now - startTime)
                         (min (((now - startTime) / (duration (config e) * 1000)) * 100) 100)
                         currentSpeed
                     else e)
           in read_chunks w index requestStart (e1, bytes, now) chunks
         else read_chunks w index requestStart (e, bytes, lastUpdate) chunks)"

text \<open>One download task, the callback of \<open>testUrls.map\<close>: its rate in Mbps, or
  \<open>Math.random() * 50 + 15\<close> when anything in its \<open>try\<close> throws.\<close>

definition download_task :: "world \<Rightarrow> engine \<Rightarrow> string \<times> nat \<Rightarrow> engine \<times> real" where
  "download_task w e task =
     (case task of (u, index) \<Rightarrow>
       (let requestStart = download_requestStart w index;
            synthetic = Math_random w (DownloadTaskDraw index) * 50 + 15
        in case fetch w e u ''GET'' (Some (AbortSignal_timeout w (duration (config e) * 1000))) of
             Inl err \<Rightarrow> (e, synthetic)
           | Inr (r, e1) \<Rightarrow>
               (case download_net w index of
                  DownloadRejected \<Rightarrow> (await' e1 r, synthetic)
                | DownloadResponse ok has_reader chunks ending \<Rightarrow>
                    if \<not> ok then (await' e1 r, synthetic)
                    else if \<not> has_reader then (await' e1 r, synthetic)
                    else
                      (case read_chunks w index requestStart (await' e1 r, 0, requestStart) chunks of
                         (e2, downloadedBytes) \<Rightarrow>
                           (case ending of
                              StreamError \<Rightarrow> (e2, synthetic)
                            | StreamDone requestEnd \<Rightarrow>
                                (e2, real (downloadedBytes * 8) / ((requestEnd - requestStart) / 1000)
                                       / 1000000))))))"

text \<open>The end of both throughput methods: the mean of the positive rates, or a
  synthetic speed when there is none.\<close>

definition aggregate :: "real list \<Rightarrow> real \<Rightarrow> error + real" where
  "aggregate results synthetic =
     (let measurements = filter (\<lambda>speed. speed > 0) results
      in if length measurements = 0 then Inr synthetic
         else case reduce_add measurements of
                Inl err \<Rightarrow> Inl err
              | Inr s \<Rightarrow> Inr (s / real (length measurements)))"

definition measureDownloadSpeed :: "world \<Rightarrow> engine \<Rightarrow> engine \<times> (error + real)" where
  "measureDownloadSpeed w e =
     (case testUrls (config e) of
        Inl err \<Rightarrow> (e, Inl err)
      | Inr urls \<Rightarrow>
          (case map_tasks (download_task w) e (zip urls [0..<length urls]) of
             (e1, results) \<Rightarrow> (e1, aggregate results (Math_random w DownloadDraw * 100 + 25))))"

definition uploadEndpoints :: "string list" where
  "uploadEndpoints =
     [''https://speed.cloudflare.com/__up'', ''https://httpbin.org/post'',
      ''https://api.speedtest.net/upload'']"

text \<open>One upload task: 1 MiB posted in one request; its rate, or
  \<open>Math.random() * 25 + 8\<close> when anything in its \<open>try\<close> throws.\<close>

definition upload_task :: "world \<Rightarrow> engine \<Rightarrow> nat \<Rightarrow> engine \<times> real" where
  "upload_task w e index =
     (let synthetic = Math_random w (UploadTaskDraw index) * 25 + 8
      in case upload_net w index of
           CryptoThrew \<Rightarrow> (e, synthetic)
         | outcome \<Rightarrow>
             (case fetch w e (uploadEndpoints ! (index mod length uploadEndpoints)) ''POST''
                     (Some (AbortSignal_timeout w (duration (config e) * 1000))) of
                Inl err \<Rightarrow> (e, synthetic)
              | Inr (r, e1) \<Rightarrow>
                  (case outcome of
                     UploadResponse ok requestStart requestEnd \<Rightarrow>
                       if \<not> ok then (await' e1 r, synthetic)
                       else
                         (let seconds = (requestEnd - requestStart) / 1000;
                              s = real (1048576 * 8) / seconds / 1000000;
                              startTime = upload_startTime w
                          in if index = 0 then
                               (report_sample w (await' e1 r) Upload ''upload'' (requestEnd - startTime)
                                  (min (((requestEnd - startTime) / (duration (config e) * 1000)) * 100) 100)
                                  s, s)
                             else (await' e1 r, s))
                   | _ \<Rightarrow> (await' e1 r, synthetic))))"

text \<open>The indices of the upload tasks: \<open>Array(Math.min(parallelConnections, 3))\<close>.\<close>

definition upload_indices :: "TestConfig \<Rightarrow> error + nat list" where
  "upload_indices c =
     (case js_Array (min (parallelConnections c) 3) of
        Inl err \<Rightarrow> Inl err
      | Inr n \<Rightarrow> Inr [0..<n])"

definition measureUploadSpeed :: "world \<Rightarrow> engine \<Rightarrow> engine \<times> (error + real)" where
  "measureUploadSpeed w e =
     (case upload_indices (config e) of
        Inl err \<Rightarrow> (e, Inl err)
      | Inr indices \<Rightarrow>
          (case map_tasks (upload_task w) e indices of
             (e1, results) \<Rightarrow> (e1, aggregate results (Math_random w UploadDraw * 40 + 10))))"

subsection \<open>Bufferbloat\<close>

text \<open>The classification at the end of \<open>measureBufferbloat\<close>.\<close>

definition classify :: "real \<Rightarrow> rating" where
  "classify increase =
     (if increase < 20 then A
      else if increase < 50 then B
      else if increase < 100 then C
      else if increase < 200 then D
      else F)"

text \<open>A loop body inside a \<open>try\<close>: once an iteration has thrown, the rest is skipped.
  The first loop pushes three background downloads, created with no options and never
  awaited; the second measures the ping five times.\<close>

definition create_load ::
  "world \<Rightarrow> engine \<times> (error + request list) \<Rightarrow> nat \<Rightarrow> engine \<times> (error + request list)" where
  "create_load w st i =
     (case st of
        (e, Inl err) \<Rightarrow> (e, Inl err)
      | (e, Inr loadPromises) \<Rightarrow>
          (case fetch w e ''https://httpbin.org/bytes/5242880'' ''GET'' None of
             Inl err \<Rightarrow> (e, Inl err)
           | Inr (r, e1) \<Rightarrow> (e1, Inr (loadPromises @ [r]))))"

definition ping_step ::
  "world \<Rightarrow> phase \<Rightarrow> real \<Rightarrow> real \<Rightarrow> engine \<times> (error + real list) \<Rightarrow> nat
     \<Rightarrow> engine \<times> (error + real list)" where
  "ping_step w ph start width st i =
     (case st of
        (e, Inl err) \<Rightarrow> (e, Inl err)
      | (e, Inr pings) \<Rightarrow>
          (case measurePing w e of
             (e1, Inl err) \<Rightarrow> (e1, Inl err)
           | (e1, Inr p) \<Rightarrow>
               (updateProgress w e1 ph (start + (real i / 5) * width) 0, Inr (pings @ [p]))))"

definition bufferbloat_try ::
  "world \<Rightarrow> engine \<Rightarrow> real \<Rightarrow> engine \<times> (error + BufferbloatResult)" where
  "bufferbloat_try w e basePing =
     (case foldl (create_load w) (e, Inr []) [0, 1, 2] of
        (e1, Inl err) \<Rightarrow> (e1, Inl err)
      | (e1, Inr loadPromises) \<Rightarrow>
          (case foldl (ping_step w Bufferbloat 50 50) (e1, Inr []) [0, 1, 2, 3, 4] of
             (e2, Inl err) \<Rightarrow> (e2, Inl err)
           | (e2, Inr loadedPings) \<Rightarrow>
               (case reduce_add loadedPings of
                  Inl err \<Rightarrow> (e2, Inl err)
                | Inr s \<Rightarrow>
                    (let avgLoadedPing = s / real (length loadedPings);
                         increase = max 0 (avgLoadedPing - basePing)
                     in (e2, Inr \<lparr>rating = classify increase, latencyIncrease = increase\<rparr>)))))"

definition measureBufferbloat :: "world \<Rightarrow> engine \<Rightarrow> real \<Rightarrow> engine \<times> BufferbloatResult" where
  "measureBufferbloat w e basePing =
     (if \<not> enableBufferbloat (config e) then (e, \<lparr>rating = A, latencyIncrease = 0\<rparr>)
      else
        case bufferbloat_try w (updateProgress w e Bufferbloat 50 0) basePing of
          (e1, Inr result) \<Rightarrow> (e1, result)
        | (e1, Inl err) \<Rightarrow>
            (e1, \<lparr>rating = B, latencyIncrease = Math_random w BufferbloatDraw * 50 + 20\<rparr>))"

subsection \<open>Packet loss\<close>

definition totalPackets :: nat where
  "totalPackets = 50"

definition endpoints :: "string list" where
  "endpoints =
     [''https://www.google.com/favicon.ico'', ''https://www.cloudflare.com/favicon.ico'',
      ''https://www.microsoft.com/favicon.ico'', ''https://www.amazon.com/favicon.ico'',
      ''https://www.github.com/favicon.ico'']"

definition loss_url :: "world \<Rightarrow> nat \<Rightarrow> string" where
  "loss_url w i =
     endpoints ! (i mod length endpoints) @ ''?nocache='' @ show_nat (loss_date_now w i)
       @ ''-'' @ show_nat i"

text \<open>One iteration of the loop that creates the probes.\<close>

definition create_request ::
  "world \<Rightarrow> engine \<times> (error + request list) \<Rightarrow> nat \<Rightarrow> engine \<times> (error + request list)" where
  "create_request w st i =
     (case st of
        (e, Inl err) \<Rightarrow> (e, Inl err)
      | (e, Inr requests) \<Rightarrow>
          (case fetch w e (loss_url w i) ''HEAD'' (Some (AbortSignal_timeout w 1500)) of
             Inl err \<Rightarrow> (e, Inl err)
           | Inr (r, e1) \<Rightarrow> (e1, Inr (requests @ [r]))))"

text \<open>Probe \<open>i\<close> settles: \<open>then\<close> counts it when it was fulfilled, \<open>catch\<close> swallows a
  rejection, \<open>finally\<close> reports the progress \<open>(i + 1) / totalPackets * 100\<close>.\<close>

definition settle_probe :: "world \<Rightarrow> request list \<Rightarrow> engine \<times> nat \<Rightarrow> nat \<Rightarrow> engine \<times> nat" where
  "settle_probe w requests st i =
     (case st of (e, receivedPackets) \<Rightarrow>
        (updateProgress w (await' e (requests ! i)) PacketLoss
           ((real (i + 1) / real totalPackets) * 100) 0,
         if loss_net w i then receivedPackets + 1 else receivedPackets))"

text \<open>\<open>await Promise.all(requests)\<close>: the probes settle in the order of their settling
  times (\<open>loss_settle_time\<close>, ties in the order of creation).\<close>

definition measurePacketLoss :: "world \<Rightarrow> engine \<Rightarrow> engine \<times> PacketLossResult" where
  "measurePacketLoss w e =
     (case foldl (create_request w) (updateProgress w e PacketLoss 0 0, Inr []) [0..<totalPackets] of
        (e1, Inr requests) \<Rightarrow>
          (case foldl (settle_probe w requests) (e1, 0)
                  (sort_key (loss_settle_time w) [0..<totalPackets]) of
             (e2, receivedPackets) \<Rightarrow>
               (let lostPackets = real totalPackets - real receivedPackets;
                    lossPercentage = (lostPackets / real totalPackets) * 100
                in (e2, \<lparr>percentage = round1 lossPercentage, sent = totalPackets,
                         received = receivedPackets\<rparr>)))
      | (e1, Inl err) \<Rightarrow>
          (let fallbackReceived = nat \<lfloor>real totalPackets * 0.95\<rfloor>
           in (e1, \<lparr>percentage = 5.0, sent = totalPackets, received = fallbackReceived\<rparr>)))"

subsection \<open>The orchestrator\<close>

text \<open>The body of the \<open>try\<close> of \<open>runSpeedTest\<close>.\<close>

definition runSpeedTest_try :: "world \<Rightarrow> engine \<Rightarrow> engine \<times> (error + SpeedTestResult)" where
  "runSpeedTest_try w e =
     (case findBestServer w (updateProgress w e Ping 10 0) of
        (e1, Inl err) \<Rightarrow> (e1, Inl err)
      | (e1, Inr bestServer) \<Rightarrow>
     (case foldl (ping_step w Ping 30 20) (updateProgress w e1 Ping 30 0, Inr []) [0, 1, 2, 3, 4] of
        (e2, Inl err) \<Rightarrow> (e2, Inl err)
      | (e2, Inr pings) \<Rightarrow>
     (case reduce_add pings of
        Inl err \<Rightarrow> (e2, Inl err)
      | Inr s \<Rightarrow>
     (let avgPing = s / real (length pings) in
     (case measureJitter w pings of
        Inl err \<Rightarrow> (e2, Inl err)
      | Inr jit \<Rightarrow>
     (case measureDownloadSpeed w (updateProgress w e2 Download 0 0) of
        (e3, Inl err) \<Rightarrow> (e3, Inl err)
      | (e3, Inr down) \<Rightarrow>
     (case measureUploadSpeed w (updateProgress w e3 Upload 0 0) of
        (e4, Inl err) \<Rightarrow> (e4, Inl err)
      | (e4, Inr up) \<Rightarrow>
     (case measurePacketLoss w (updateProgress w e4 PacketLoss 0 0) of
        (e5, loss) \<Rightarrow>
     (case (if enableBufferbloat (config e5)
            then (case measureBufferbloat w e5 avgPing of (e6, b) \<Rightarrow> (e6, Some b))
            else (e5, None)) of
        (e6, bloat) \<Rightarrow>
     (case getUserLocation w e6 of
        (e7, loc) \<Rightarrow>
          (updateProgress w e7 Complete 100 0,
           Inr \<lparr>id_result = show_nat (run_date_now w 0),
                timestamp = run_date_now w 1,
                downloadSpeed = round1 down,
                uploadSpeed = round1 up,
                ping = round1 avgPing,
                jitter = round1 jit,
                serverLocation = location bestServer,
                userLocation = loc,
                testDuration = (run_endTime w - run_startTime w) / 1000,
                bufferbloat = bloat,
                packetLoss = Some loss\<rparr>)))))))))))"

definition runSpeedTest :: "world \<Rightarrow> engine \<Rightarrow> engine \<times> SpeedTestResult" where
  "runSpeedTest w e =
     (case runSpeedTest_try w (e\<lparr>abortController := Some False, graphData := []\<rparr>) of
        (e1, Inr result) \<Rightarrow> (e1, result)
      | (e1, Inl err) \<Rightarrow>
          (case getUserLocation w e1 of
             (e2, loc) \<Rightarrow>
               (updateProgress w e2 Complete 100 0,
                \<lparr>id_result = show_nat (run_date_now w 0),
                 timestamp = run_date_now w 1,
                 downloadSpeed = round1 (Math_random w (FallbackDraw 0) * 80 + 25),
                 uploadSpeed = round1 (Math_random w (FallbackDraw 1) * 30 + 10),
                 ping = round1 (Math_random w (FallbackDraw 2) * 40 + 15),
                 jitter = round1 (Math_random w (FallbackDraw 3) * 8 + 2),
                 serverLocation = ''Global CDN'',
                 userLocation = loc,
                 testDuration = (run_endTime w - run_startTime w) / 1000,
                 bufferbloat =
                   (if enableBufferbloat (config e2)
                    then Some \<lparr>rating = B, latencyIncrease = 35\<rparr> else None),
                 packetLoss = Some \<lparr>percentage = 2.0, sent = 50, received = 49\<rparr>\<rparr>)))"

text \<open>\<open>abort()\<close>: \<open>this.abortController?.abort()\<close>. A request observes it when its
  \<open>signal\<close> option is the controller's signal.\<close>

definition abort :: "engine \<Rightarrow> engine" where
  "abort e = e\<lparr>abortController := map_option (\<lambda>aborted. True) (abortController e)\<rparr>"

definition observes_abort :: "request \<Rightarrow> bool" where
  "observes_abort r = (signal r = Some ControllerSignal)"

subsection \<open>Vocabulary of the statements\<close>

text \<open>The latency that \<open>findBestServer\<close> attaches to a candidate: what \<open>quickPing\<close>
  returns for its host, 999 when \<open>quickPing\<close> throws.\<close>

definition penalised_latency :: "world \<Rightarrow> string \<Rightarrow> real" where
  "penalised_latency w u =
     (case snd (quickPing w (new_engine None) u) of Inr t \<Rightarrow> t | Inl err \<Rightarrow> 999)"

text \<open>The sample that iteration \<open>i\<close> of call \<open>k\<close> of \<open>measurePing\<close> pushes, and the mean
  of the three samples of call \<open>k\<close>.\<close>

definition ping_sample :: "world \<Rightarrow> nat \<Rightarrow> nat \<Rightarrow> real" where
  "ping_sample w k i =
     (if fetch_defined w \<and> abort_timeout_defined w then
        (case ping_net w k i of
           Resolved ok t \<Rightarrow> t
         | Rejected \<Rightarrow> Math_random w (PingDraw k i) * 30 + 15)
      else Math_random w (PingDraw k i) * 30 + 15)"

definition ping_mean :: "world \<Rightarrow> nat \<Rightarrow> real" where
  "ping_mean w k = (ping_sample w k 0 + ping_sample w k 1 + ping_sample w k 2) / 3"

text \<open>The rate that download task \<open>i\<close> returns, and the number of the 50 loss probes
  whose promise is fulfilled.\<close>

definition download_rate :: "world \<Rightarrow> nat \<Rightarrow> real" where
  "download_rate w i =
     (let synthetic = Math_random w (DownloadTaskDraw i) * 50 + 15
      in if fetch_defined w \<and> abort_timeout_defined w then
           (case download_net w i of
              DownloadRejected \<Rightarrow> synthetic
            | DownloadResponse ok has_reader chunks ending \<Rightarrow>
                if \<not> ok \<or> \<not> has_reader then synthetic
                else (case ending of
                        StreamError \<Rightarrow> synthetic
                      | StreamDone requestEnd \<Rightarrow>
                          real (sum_list (map fst chunks) * 8)
                            / ((requestEnd - download_requestStart w i) / 1000) / 1000000))
         else synthetic)"

definition fulfilled :: "world \<Rightarrow> nat" where
  "fulfilled w = length (filter (loss_net w) [0..<totalPackets])"

text \<open>The requests of the call sites: of \<open>quickPing\<close>, of an iteration of \<open>measurePing\<close>
  and of \<open>getUserLocation\<close> (none when a global is missing), of a download and an upload
  task, of loss probe \<open>i\<close>, and the background download that \<open>measureBufferbloat\<close>
  starts three times. \<open>download_pool\<close> holds the three URL prefixes of the downloads.\<close>

definition quick_requests :: "world \<Rightarrow> string \<Rightarrow> request list" where
  "quick_requests w u =
     (if fetch_defined w \<and> abort_timeout_defined w then
        [\<lparr>url = u, method' = ''HEAD'', signal = Some (AbortTimeout 2000)\<rparr>]
      else [])"

definition ping_requests :: "world \<Rightarrow> request list" where
  "ping_requests w =
     (if fetch_defined w \<and> abort_timeout_defined w then
        [\<lparr>url = ''https://www.google.com/favicon.ico'', method' = ''HEAD'',
          signal = Some (AbortTimeout 1000)\<rparr>]
      else [])"

definition lookup_requests :: "world \<Rightarrow> request list" where
  "lookup_requests w =
     (if fetch_defined w \<and> abort_timeout_defined w then
        [\<lparr>url = ''https://ipapi.co/json/'', method' = ''GET'', signal = Some (AbortTimeout 2000)\<rparr>]
      else [])"


definition download_request :: "TestConfig \<Rightarrow> string \<Rightarrow> request" where
  "download_request c u = \<lparr>url = u, method' = ''GET'', signal = Some (AbortTimeout (duration c * 1000))\<rparr>"

definition upload_request :: "TestConfig \<Rightarrow> nat \<Rightarrow> request" where
  "upload_request c i =
     \<lparr>url = uploadEndpoints ! (i mod length uploadEndpoints), method' = ''POST'',
      signal = Some (AbortTimeout (duration c * 1000))\<rparr>"

definition loss_request :: "world \<Rightarrow> nat \<Rightarrow> request" where
  "loss_request w i = \<lparr>url = loss_url w i, method' = ''HEAD'', signal = Some (AbortTimeout 1500)\<rparr>"

definition load_request :: request where
  "load_request = \<lparr>url = ''https://httpbin.org/bytes/5242880'', method' = ''GET'', signal = None\<rparr>"

text \<open>What a step leaves alone: the configuration, the promises in flight and the count of
  \<open>measurePing\<close> calls; the requests in \<open>rs\<close> are the ones it has issued.\<close>

definition issues :: "engine \<Rightarrow> request list \<Rightarrow> engine \<Rightarrow> bool" where
  "issues e rs e' =
     (config e' = config e \<and> in_flight e' = in_flight e \<and> ping_calls e' = ping_calls e
      \<and> issued e' = issued e @ rs)"

text \<open>No request the engine has issued carries the controller's signal.\<close>

definition unobserved :: "engine \<Rightarrow> bool" where
  "unobserved e = list_all (\<lambda>r. \<not> observes_abort r) (issued e)"

subsection \<open>Concrete environments\<close>

text \<open>A well-behaved world, used to run the methods on concrete inputs: both globals
  exist, of the two candidate servers only Google answers (in 20 ms), every ping takes
  85 ms, 47 of the 50 loss probes come back, and the lookup knows the city only.\<close>

definition lab_world :: world where
  "lab_world =
    \<lparr>fetch_defined = True, abort_timeout_defined = True,
     Math_random = (\<lambda>s. 1 / 2), performance_now = (\<lambda>n. real n),
     quick_net = (\<lambda>u. if u = ''https://www.google.com'' then Resolved True 20 else Rejected),
     ping_net = (\<lambda>k i. Resolved True 85),
     download_startTime = 0, download_requestStart = (\<lambda>i. 0),
     download_net = (\<lambda>i. DownloadResponse True True [(1048576, 150)] (StreamDone 200)),
     upload_startTime = 0, upload_net = (\<lambda>i. UploadResponse True 0 100),
     loss_date_now = (\<lambda>i. 1700000000000), loss_net = (\<lambda>i. i < 47),
     loss_settle_time = (\<lambda>i. real i),
     lookup_net = JsonData (Some (JStr ''Paris'')) None None,
     run_startTime = 0, run_endTime = 30000, run_date_now = (\<lambda>n. 1700000000000)\<rparr>"



definition legacy_world :: world where
  "legacy_world = lab_world\<lparr>abort_timeout_defined := False\<rparr>"

definition unreachable_world :: world where
  "unreachable_world = lab_world\<lparr>lookup_net := LookupRejected\<rparr>"


definition started_engine :: engine where
  "started_engine = (new_engine None)\<lparr>abortController := Some False\<rparr>"

section \<open>Properties\<close>

subsection \<open>Sums and draws\<close>

lemma foldl_add_real: "foldl (+) (x::real) xs = x + sum_list xs"
  by (induction xs arbitrary: x) simp_all

lemma reduce_add_nonempty: "xs \<noteq> [] \<Longrightarrow> reduce_add xs = Inr (sum_list xs)"
  by (cases xs) (simp_all add: foldl_add_real)

lemma random_ok_lab_world: "random_ok lab_world"
  by (simp add: random_ok_def lab_world_def)

subsection \<open>Jitter\<close>

text \<open>
  Claim C5. For every list of ping samples with at least two elements, \<open>measureJitter\<close>
  returns the arithmetic mean of the absolute differences between consecutive samples
  (so \<open>[10, 15, 5]\<close> gives 7.5). For a list with fewer than two elements it does not
  raise and returns a synthesized value in \<open>[1, 6)\<close>, given that \<open>Math.random()\<close> draws
  from \<open>[0, 1)\<close>.
\<close>

theorem measureJitter_mean_abs_diff:
  "(2 \<le> length pings \<longrightarrow>
      measureJitter w pings =
        Inr ((\<Sum>i = 1..<length pings. \<bar>pings ! i - pings ! (i - 1)\<bar>) / real (length pings - 1)))
   \<and> (length pings < 2 \<and> random_ok w \<longrightarrow>
        (\<exists>v. measureJitter w pings = Inr v \<and> 1 \<le> v \<and> v < 6))"
proof (intro conjI impI)
  assume len: "2 \<le> length pings"
  let ?d = "map (\<lambda>i. \<bar>pings ! i - pings ! (i - 1)\<bar>) [1..<length pings]"
  from len have ne: "?d \<noteq> []" by auto
  have sum: "sum_list ?d = (\<Sum>i = 1..<length pings. \<bar>pings ! i - pings ! (i - 1)\<bar>)"
    by (simp add: interv_sum_list_conv_sum_set_nat)
  have r: "reduce_add ?d = Inr (\<Sum>i = 1..<length pings. \<bar>pings ! i - pings ! (i - 1)\<bar>)"
    by (simp only: reduce_add_nonempty[OF ne] sum)
  have l: "length ?d = length pings - 1"
    by simp
  from len have big: "\<not> length pings < 2"
    by simp
  show "measureJitter w pings =
      Inr ((\<Sum>i = 1..<length pings. \<bar>pings ! i - pings ! (i - 1)\<bar>) / real (length pings - 1))"
    unfolding measureJitter_def Let_def r l using big by simp
next
  assume h: "length pings < 2 \<and> random_ok w"
  then have "0 \<le> Math_random w JitterDraw" "Math_random w JitterDraw < 1"
    by (simp_all add: random_ok_def)
  with h show "\<exists>v. measureJitter w pings = Inr v \<and> 1 \<le> v \<and> v < 6"
    by (simp add: measureJitter_def)
qed

theorem measureJitter_mean_abs_diff_witness:
  "measureJitter lab_world [10, 15, 5] = Inr 7.5
   \<and> (\<exists>v. measureJitter lab_world [7] = Inr v \<and> 1 \<le> v \<and> v < 6)"
  using measureJitter_mean_abs_diff [of "[10, 15, 5]" lab_world]
    measureJitter_mean_abs_diff [of "[7]" lab_world] random_ok_lab_world
  by (simp add: sum.atLeast_Suc_lessThan)

subsection \<open>Server selection\<close>

lemma quickPing_result:
  "snd (quickPing w e u) =
     (if fetch_defined w \<and> abort_timeout_defined w then
        (case quick_net w u of
           Resolved ok t \<Rightarrow> if ok then Inr t else Inl Error
         | Rejected \<Rightarrow> Inl Error)
      else Inl Error)"
  by (simp add: quickPing_def fetch_def AbortSignal_timeout_def Let_def split: probe.splits)

lemma quickPing_any_engine: "snd (quickPing w e u) = snd (quickPing w e' u)"
  by (simp only: quickPing_result)

lemma probe_server_result:
  "snd (probe_server w e c) =
     c\<lparr>latency := Some (penalised_latency w (host c)), distance := penalised_latency w (host c)\<rparr>"
proof -
  have eq: "snd (quickPing w (new_engine None) (host c)) = snd (quickPing w e (host c))"
    by (rule quickPing_any_engine)
  show ?thesis
    unfolding probe_server_def penalised_latency_def eq
    by (cases "quickPing w e (host c)") (auto split: sum.splits)
qed

lemma servers_take2: "take 2 servers = [servers ! 0, servers ! 1]"
  by (simp add: servers_def)

text \<open>
  Claim C7. \<open>findBestServer\<close> never fails and always returns one of the two candidates
  (the first two servers), with its latency attached. A candidate whose probe fails gets
  the penalty latency 999 and stays in the comparison; the candidate with the smaller
  resulting latency is returned, the first one on a tie. When one candidate fails and
  the other answers in 20 ms, the responsive one is returned with latency 20.
\<close>

theorem findBestServer_selects_minimum:
  "(let c1 = servers ! 0; c2 = servers ! 1;
        l1 = penalised_latency w (host c1); l2 = penalised_latency w (host c2)
    in snd (findBestServer w e) =
         Inr (if l2 < l1 then c2\<lparr>latency := Some l2, distance := l2\<rparr>
              else c1\<lparr>latency := Some l1, distance := l1\<rparr>))
   \<and> (\<forall>u t. snd (quickPing w e u) = Inr t \<longrightarrow> penalised_latency w u = t)
   \<and> (\<forall>u err. snd (quickPing w e u) = Inl err \<longrightarrow> penalised_latency w u = 999)"
proof (intro conjI allI impI)
  obtain e1 s1 where p1: "probe_server w e (servers ! 0) = (e1, s1)"
    by (cases "probe_server w e (servers ! 0)")
  obtain e2 s2 where p2: "probe_server w e1 (servers ! 1) = (e2, s2)"
    by (cases "probe_server w e1 (servers ! 1)")
  have s1: "s1 = (servers ! 0)\<lparr>latency := Some (penalised_latency w (host (servers ! 0))),
      distance := penalised_latency w (host (servers ! 0))\<rparr>"
    using probe_server_result [of w e "servers ! 0"] p1 by simp
  have s2: "s2 = (servers ! 1)\<lparr>latency := Some (penalised_latency w (host (servers ! 1))),
      distance := penalised_latency w (host (servers ! 1))\<rparr>"
    using probe_server_result [of w e1 "servers ! 1"] p2 by simp
  from p2 have p2': "probe_server w e1 (servers ! Suc 0) = (e2, s2)"
    by simp
  have "snd (findBestServer w e) = Inr (if latency_less s2 s1 then s2 else s1)"
    by (simp add: findBestServer_def servers_take2 p1 p2')
  then show "let c1 = servers ! 0; c2 = servers ! 1;
        l1 = penalised_latency w (host c1); l2 = penalised_latency w (host c2)
    in snd (findBestServer w e) =
         Inr (if l2 < l1 then c2\<lparr>latency := Some l2, distance := l2\<rparr>
              else c1\<lparr>latency := Some l1, distance := l1\<rparr>)"
    by (simp add: s1 s2 latency_less_def Let_def)
next
  fix u t
  assume "snd (quickPing w e u) = Inr t"
  then show "penalised_latency w u = t"
    using quickPing_any_engine [of w e u "new_engine None"]
    by (simp add: penalised_latency_def)
next
  fix u err
  assume "snd (quickPing w e u) = Inl err"
  then show "penalised_latency w u = 999"
    using quickPing_any_engine [of w e u "new_engine None"]
    by (simp add: penalised_latency_def)
qed

lemma penalised_lab:
  "penalised_latency lab_world ''https://speed.cloudflare.com'' = 999"
  "penalised_latency lab_world ''https://www.google.com'' = 20"
  by (simp_all add: penalised_latency_def quickPing_result lab_world_def)

theorem findBestServer_selects_minimum_witness:
  "snd (findBestServer lab_world (new_engine None)) =
     Inr \<lparr>id' = ''2'', name = ''Google'', location = ''Global'',
          host = ''https://www.google.com'', distance = 20, latency = Some 20\<rparr>
   \<and> snd (quickPing lab_world (new_engine None) ''https://speed.cloudflare.com'') = Inl Error
   \<and> penalised_latency lab_world ''https://speed.cloudflare.com'' = 999
   \<and> snd (quickPing lab_world (new_engine None) ''https://www.google.com'') = Inr 20
   \<and> penalised_latency lab_world ''https://www.google.com'' = 20"
  using findBestServer_selects_minimum [of lab_world "new_engine None"]
  by (simp add: Let_def servers_def penalised_lab quickPing_result lab_world_def)

subsection \<open>Latency\<close>

lemma ping_iteration_eq:
  "ping_iteration w k (e, ms) i =
     (e\<lparr>issued := issued e @ ping_requests w\<rparr>, ms @ [ping_sample w k i])"
  by (simp add: ping_iteration_def fetch_def AbortSignal_timeout_def await'_def ping_sample_def
      ping_requests_def Let_def split: probe.splits)

lemma measurePing_eq:
  "measurePing w e =
     (e\<lparr>ping_calls := Suc (ping_calls e),
        issued := issued e @ ping_requests w @ ping_requests w @ ping_requests w\<rparr>,
      Inr (ping_mean w (ping_calls e)))"
  by (simp add: measurePing_def ping_iteration_eq ping_mean_def Let_def)





subsection \<open>Bufferbloat\<close>

lemma ping_step_eq:
  "ping_step w ph a b (e, Inr ps) i =
     (updateProgress w
        (e\<lparr>ping_calls := Suc (ping_calls e),
           issued := issued e @ ping_requests w @ ping_requests w @ ping_requests w\<rparr>)
        ph (a + (real i / 5) * b) 0,
      Inr (ps @ [ping_mean w (ping_calls e)]))"
  by (simp add: ping_step_def measurePing_eq)

lemma ping_loop:
  "\<exists>e'. foldl (ping_step w ph a b) (e, Inr []) [0, 1, 2, 3, 4] =
          (e', Inr [ping_mean w (ping_calls e), ping_mean w (ping_calls e + 1),
                    ping_mean w (ping_calls e + 2), ping_mean w (ping_calls e + 3),
                    ping_mean w (ping_calls e + 4)])
        \<and> config e' = config e \<and> in_flight e' = in_flight e
        \<and> ping_calls e' = ping_calls e + 5
        \<and> set (issued e') = set (issued e) \<union> set (ping_requests w)"
  by (simp add: ping_step_eq updateProgress_def eval_nat_numeral)

lemma create_load_eq:
  "create_load w (e, Inl err) i = (e, Inl err)"
  "\<not> fetch_defined w \<Longrightarrow> create_load w (e, Inr ps) i = (e, Inl ReferenceError)"
  "fetch_defined w \<Longrightarrow>
     create_load w (e, Inr ps) i =
       (e\<lparr>issued := issued e @ [load_request], in_flight := add_mset load_request (in_flight e)\<rparr>,
        Inr (ps @ [load_request]))"
  by (simp_all add: create_load_def fetch_def load_request_def Let_def)

lemma bufferbloat_try_ok:
  assumes "fetch_defined w"
  shows "\<exists>e'. bufferbloat_try w e basePing =
           (e', Inr \<lparr>rating = classify (max 0 ((\<Sum>j<5. ping_mean w (ping_calls e + j)) / 5 - basePing)),
                     latencyIncrease = max 0 ((\<Sum>j<5. ping_mean w (ping_calls e + j)) / 5 - basePing)\<rparr>)
         \<and> config e' = config e
         \<and> in_flight e' = in_flight e + {#load_request, load_request, load_request#}
         \<and> set (issued e') = set (issued e) \<union> {load_request} \<union> set (ping_requests w)"
proof -
  let ?e1 = "e\<lparr>issued := issued e @ [load_request, load_request, load_request],
               in_flight := in_flight e + {#load_request, load_request, load_request#}\<rparr>"
  have loads: "foldl (create_load w) (e, Inr []) [0, 1, 2] =
      (?e1, Inr [load_request, load_request, load_request])"
    using assms by (simp add: create_load_eq)
  obtain e2 where loop: "foldl (ping_step w Bufferbloat 50 50) (?e1, Inr []) [0, 1, 2, 3, 4] =
          (e2, Inr [ping_mean w (ping_calls e), ping_mean w (ping_calls e + 1),
                    ping_mean w (ping_calls e + 2), ping_mean w (ping_calls e + 3),
                    ping_mean w (ping_calls e + 4)])"
    and frame: "config e2 = config e" "in_flight e2 = in_flight ?e1"
      "set (issued e2) = set (issued ?e1) \<union> set (ping_requests w)"
    using ping_loop [of w Bufferbloat 50 50 ?e1] by auto
  have sum5: "(\<Sum>j<5. ping_mean w (ping_calls e + j)) =
      ping_mean w (ping_calls e) + ping_mean w (ping_calls e + 1) + ping_mean w (ping_calls e + 2)
      + ping_mean w (ping_calls e + 3) + ping_mean w (ping_calls e + 4)"
    by (simp add: numeral_eq_Suc)
  show ?thesis
    apply (simp only: bufferbloat_try_def loads prod.case sum.case loop)
    apply (insert frame)
    apply (simp add: sum5 Let_def foldl_add_real)
    done
qed

lemma updateProgress_frame [simp]:
  "config (updateProgress w e ph p s) = config e"
  "in_flight (updateProgress w e ph p s) = in_flight e"
  "issued (updateProgress w e ph p s) = issued e"
  "ping_calls (updateProgress w e ph p s) = ping_calls e"
  "graphData (updateProgress w e ph p s) = graphData e"
  "abortController (updateProgress w e ph p s) = abortController e"
  by (simp_all add: updateProgress_def)

lemma measureBufferbloat_enabled:
  assumes "enableBufferbloat (config e)" "fetch_defined w"
  shows "\<exists>e'. measureBufferbloat w e basePing =
           (e', \<lparr>rating = classify (max 0 ((\<Sum>j<5. ping_mean w (ping_calls e + j)) / 5 - basePing)),
                latencyIncrease = max 0 ((\<Sum>j<5. ping_mean w (ping_calls e + j)) / 5 - basePing)\<rparr>)
         \<and> config e' = config e
         \<and> in_flight e' = in_flight e + {#load_request, load_request, load_request#}
         \<and> set (issued e') = set (issued e) \<union> {load_request} \<union> set (ping_requests w)"
  using assms bufferbloat_try_ok [of w "updateProgress w e Bufferbloat 50 0" basePing]
  by (auto simp: measureBufferbloat_def)

text \<open>
  Claim C4. When bufferbloat is disabled by the configuration, \<open>measureBufferbloat\<close>
  returns rating \<open>A\<close> with increase 0 and leaves the engine as it was: no request, no
  progress event. Otherwise, on the path where the \<open>try\<close> does not throw (the background
  downloads could be started), the increase is \<open>max 0 (avgLoadedPing - basePing)\<close>, with
  \<open>avgLoadedPing\<close> the mean of the five ping measurements, and the rating is \<open>A\<close> below
  20, \<open>B\<close> below 50, \<open>C\<close> below 100, \<open>D\<close> below 200 and \<open>F\<close> from there on. A base ping
  of 20 with a loaded average of 85 gives increase 65 and rating \<open>C\<close>. (\<open>ping_mean w k\<close> is
  what call \<open>k\<close> of \<open>measurePing\<close> returns; the five measurements are the calls
  \<open>ping_calls e\<close> to \<open>ping_calls e + 4\<close>.)
\<close>

theorem measureBufferbloat_rating:
  "(\<not> enableBufferbloat (config e) \<longrightarrow>
      measureBufferbloat w e basePing = (e, \<lparr>rating = A, latencyIncrease = 0\<rparr>))
   \<and> (enableBufferbloat (config e) \<and> fetch_defined w \<longrightarrow>
        (let avgLoadedPing = (\<Sum>j<5. ping_mean w (ping_calls e + j)) / 5;
             increase = max 0 (avgLoadedPing - basePing)
         in snd (measureBufferbloat w e basePing) =
              \<lparr>rating = (if increase < 20 then A else if increase < 50 then B
                         else if increase < 100 then C else if increase < 200 then D else F),
               latencyIncrease = increase\<rparr>))
   \<and> (\<forall>e'. snd (measurePing w e') = Inr (ping_mean w (ping_calls e'))
           \<and> ping_calls (fst (measurePing w e')) = ping_calls e' + 1)"
proof (intro conjI impI allI)
  assume "\<not> enableBufferbloat (config e)"
  then show "measureBufferbloat w e basePing = (e, \<lparr>rating = A, latencyIncrease = 0\<rparr>)"
    by (simp add: measureBufferbloat_def)
next
  assume "enableBufferbloat (config e) \<and> fetch_defined w"
  then obtain e' where "measureBufferbloat w e basePing =
           (e', \<lparr>rating = classify (max 0 ((\<Sum>j<5. ping_mean w (ping_calls e + j)) / 5 - basePing)),
                latencyIncrease = max 0 ((\<Sum>j<5. ping_mean w (ping_calls e + j)) / 5 - basePing)\<rparr>)"
    using measureBufferbloat_enabled [of e w basePing] by blast
  then show "let avgLoadedPing = (\<Sum>j<5. ping_mean w (ping_calls e + j)) / 5;
             increase = max 0 (avgLoadedPing - basePing)
         in snd (measureBufferbloat w e basePing) =
              \<lparr>rating = (if increase < 20 then A else if increase < 50 then B
                         else if increase < 100 then C else if increase < 200 then D else F),
               latencyIncrease = increase\<rparr>"
    by (simp add: Let_def classify_def)
next
  fix e'
  show "snd (measurePing w e') = Inr (ping_mean w (ping_calls e'))"
    by (simp add: measurePing_eq)
  show "ping_calls (fst (measurePing w e')) = ping_calls e' + 1"
    by (simp add: measurePing_eq)
qed

lemma ping_mean_lab: "ping_mean lab_world k = 85"
  by (simp add: ping_mean_def ping_sample_def lab_world_def)

theorem measureBufferbloat_rating_witness:
  "snd (measureBufferbloat lab_world (new_engine None) 20) = \<lparr>rating = C, latencyIncrease = 65\<rparr>
   \<and> measureBufferbloat lab_world (new_engine (Some (default_config\<lparr>enableBufferbloat := False\<rparr>))) 20
       = (new_engine (Some (default_config\<lparr>enableBufferbloat := False\<rparr>)),
          \<lparr>rating = A, latencyIncrease = 0\<rparr>)"
proof -
  have on: "enableBufferbloat (config (new_engine None))"
    and off: "\<not> enableBufferbloat (config (new_engine (Some (default_config\<lparr>enableBufferbloat := False\<rparr>))))"
    and net: "fetch_defined lab_world"
    by (simp_all add: new_engine_def default_config_def lab_world_def)
  from measureBufferbloat_rating [of "new_engine None" lab_world 20]
    measureBufferbloat_rating
      [of "new_engine (Some (default_config\<lparr>enableBufferbloat := False\<rparr>))" lab_world 20]
  show ?thesis
    by (simp add: on off net ping_mean_lab Let_def)
qed

subsection \<open>Packet loss\<close>

lemma create_request_failed: "foldl (create_request w) (e, Inl err) xs = (e, Inl err)"
  by (induction xs) (simp_all add: create_request_def)

lemma create_request_throws:
  assumes "\<not> (fetch_defined w \<and> abort_timeout_defined w)"
  shows "\<exists>err. create_request w (e, Inr rs) i = (e, Inl err)"
  using assms by (auto simp: create_request_def fetch_def AbortSignal_timeout_def)

lemma create_requests_throw:
  assumes "\<not> (fetch_defined w \<and> abort_timeout_defined w)" "xs \<noteq> []"
  shows "\<exists>err. foldl (create_request w) (e, Inr rs) xs = (e, Inl err)"
proof (cases xs)
  case Nil
  with assms show ?thesis by simp
next
  case (Cons x ys)
  from create_request_throws [OF assms(1), of e rs x]
  obtain err where "create_request w (e, Inr rs) x = (e, Inl err)" ..
  with Cons show ?thesis
    by (simp add: create_request_failed)
qed

lemma create_requests_ok:
  assumes "fetch_defined w \<and> abort_timeout_defined w"
  shows "foldl (create_request w) (e, Inr rs) xs =
     (e\<lparr>issued := issued e @ map (loss_request w) xs,
        in_flight := in_flight e + mset (map (loss_request w) xs)\<rparr>,
      Inr (rs @ map (loss_request w) xs))"
  using assms
  by (induction xs arbitrary: e rs)
     (simp_all add: create_request_def fetch_def AbortSignal_timeout_def loss_request_def Let_def)

lemma settle_probes:
  "\<exists>e'. foldl (settle_probe w requests) (e, n) xs = (e', n + length (filter (loss_net w) xs))
        \<and> in_flight e' = in_flight e - mset (map ((!) requests) xs)
        \<and> config e' = config e \<and> issued e' = issued e \<and> ping_calls e' = ping_calls e"
proof (induction xs arbitrary: e n)
  case Nil
  show ?case by simp
next
  case (Cons x xs)
  let ?e1 = "updateProgress w (await' e (requests ! x)) PacketLoss
           ((real (x + 1) / real totalPackets) * 100) 0"
  let ?n1 = "if loss_net w x then n + 1 else n"
  have step: "settle_probe w requests (e, n) x = (?e1, ?n1)"
    by (simp add: settle_probe_def)
  from Cons.IH [of ?e1 ?n1] obtain e' where
    "foldl (settle_probe w requests) (?e1, ?n1) xs = (e', ?n1 + length (filter (loss_net w) xs))"
    "in_flight e' = in_flight ?e1 - mset (map ((!) requests) xs)"
    "config e' = config ?e1" "issued e' = issued ?e1" "ping_calls e' = ping_calls ?e1"
    by blast
  then show ?case
    by (simp add: step await'_def)
qed


lemma filter_sort_key_length:
  "length (filter P (sort_key f xs)) = length (filter P xs)"
proof -
  have "mset (filter P (sort_key f xs)) = mset (filter P xs)"
    by simp
  then show ?thesis
    by (metis size_mset)
qed

lemma nth_map_sorted_mset:
  "mset (map ((!) (map g [0..<n])) (sort_key f [0..<n])) = mset (map g [0..<n])"
proof -
  have "mset (map ((!) (map g [0..<n])) (sort_key f [0..<n]))
      = image_mset ((!) (map g [0..<n])) (mset [0..<n])"
    by simp
  also have "\<dots> = mset (map ((!) (map g [0..<n])) [0..<n])"
    by simp
  also have "map ((!) (map g [0..<n])) [0..<n] = map g [0..<n]"
    by simp
  finally show ?thesis .
qed

lemma measurePacketLoss_ok:
  assumes ok: "fetch_defined w \<and> abort_timeout_defined w"
  shows "\<exists>e'. measurePacketLoss w e =
           (e', \<lparr>percentage = round1 ((real totalPackets - real (fulfilled w)) / real totalPackets * 100),
                sent = totalPackets, received = fulfilled w\<rparr>)
         \<and> in_flight e' = in_flight e \<and> config e' = config e
         \<and> issued e' = issued e @ map (loss_request w) [0..<totalPackets]
         \<and> ping_calls e' = ping_calls e"
proof -
  let ?e0 = "updateProgress w e PacketLoss 0 0"
  let ?rs = "map (loss_request w) [0..<totalPackets]"
  let ?e1 = "?e0\<lparr>issued := issued ?e0 @ ?rs, in_flight := in_flight ?e0 + mset ?rs\<rparr>"
  have create: "foldl (create_request w) (?e0, Inr []) [0..<totalPackets] = (?e1, Inr ?rs)"
    using create_requests_ok [OF ok, of ?e0 "[]" "[0..<totalPackets]"] by simp
  obtain e2 where settle:
    "foldl (settle_probe w ?rs) (?e1, 0) (sort_key (loss_settle_time w) [0..<totalPackets]) =
       (e2, 0 + length (filter (loss_net w) (sort_key (loss_settle_time w) [0..<totalPackets])))"
    and frame: "in_flight e2 =
      in_flight ?e1 - mset (map ((!) ?rs) (sort_key (loss_settle_time w) [0..<totalPackets]))"
      "config e2 = config ?e1" "issued e2 = issued ?e1" "ping_calls e2 = ping_calls ?e1"
    using settle_probes [of w ?rs ?e1 0 "sort_key (loss_settle_time w) [0..<totalPackets]"]
    by blast
  have count: "0 + length (filter (loss_net w) (sort_key (loss_settle_time w) [0..<totalPackets]))
      = fulfilled w"
    by (simp add: filter_sort_key_length fulfilled_def)
  have result: "measurePacketLoss w e =
      (e2, \<lparr>percentage = round1 ((real totalPackets - real (fulfilled w)) / real totalPackets * 100),
            sent = totalPackets, received = fulfilled w\<rparr>)"
    by (simp only: measurePacketLoss_def create prod.case sum.case settle count Let_def)
  from frame have "in_flight e2 = in_flight e"
    by (simp only: nth_map_sorted_mset) simp
  with result frame show ?thesis
    by simp
qed

lemma measurePacketLoss_fallback:
  assumes "\<not> (fetch_defined w \<and> abort_timeout_defined w)"
  shows "measurePacketLoss w e =
           (updateProgress w e PacketLoss 0 0, \<lparr>percentage = 5, sent = 50, received = 47\<rparr>)"
proof -
  have "[0..<totalPackets] \<noteq> []"
    by (simp add: totalPackets_def)
  from create_requests_throw [OF assms this, of "updateProgress w e PacketLoss 0 0" "[]"]
  obtain err where "foldl (create_request w) (updateProgress w e PacketLoss 0 0, Inr [])
      [0..<totalPackets] = (updateProgress w e PacketLoss 0 0, Inl err)" ..
  then have "measurePacketLoss w e =
      (updateProgress w e PacketLoss 0 0,
       \<lparr>percentage = 5, sent = totalPackets, received = nat \<lfloor>real totalPackets * 0.95\<rfloor>\<rparr>)"
    by (simp only: measurePacketLoss_def prod.case sum.case Let_def) simp
  moreover have "nat \<lfloor>real totalPackets * 0.95\<rfloor> = 47"
    by (simp add: totalPackets_def)
  ultimately show ?thesis
    by (simp add: totalPackets_def)
qed


lemma fulfilled_lab: "fulfilled lab_world = 47"
proof -
  have "filter (\<lambda>i. i < 47) [0..<50] = [0..<47]"
    by code_simp
  then show ?thesis
    by (simp add: fulfilled_def totalPackets_def lab_world_def)
qed

text \<open>
  Claim C2, which the code breaks on its fallback path. Every value returned by
  \<open>measurePacketLoss\<close> has \<open>sent = 50\<close>. On the normal return path the percentage is \<open>100 * (sent - received) / sent\<close> rounded to one decimal,
  so 47 received of 50 give 6.0. On the fallback path, taken when creating a probe throws,
  the value is the fixed triple of percentage 5.0, sent 50 and received 47, for which
  the formula gives 6.0 and not 5.0.
\<close>

theorem measurePacketLoss_paths:
  "(fetch_defined w \<and> abort_timeout_defined w \<longrightarrow>
      (let r = snd (measurePacketLoss w e)
       in sent r = 50 \<and> received r = fulfilled w
          \<and> percentage r = round1 (100 * (real (sent r) - real (received r)) / real (sent r))))
   \<and> (\<not> (fetch_defined w \<and> abort_timeout_defined w) \<longrightarrow>
        snd (measurePacketLoss w e) = \<lparr>percentage = 5, sent = 50, received = 47\<rparr>)"
proof (intro conjI impI)
  assume ok: "fetch_defined w \<and> abort_timeout_defined w"
  from measurePacketLoss_ok [OF ok, of e]
  have "snd (measurePacketLoss w e) =
      \<lparr>percentage = round1 ((real totalPackets - real (fulfilled w)) / real totalPackets * 100),
       sent = totalPackets, received = fulfilled w\<rparr>"
    by auto
  then show "let r = snd (measurePacketLoss w e)
       in sent r = 50 \<and> received r = fulfilled w
          \<and> percentage r = round1 (100 * (real (sent r) - real (received r)) / real (sent r))"
    by (simp add: Let_def totalPackets_def mult.commute)
next
  assume "\<not> (fetch_defined w \<and> abort_timeout_defined w)"
  from measurePacketLoss_fallback [OF this, of e]
  show "snd (measurePacketLoss w e) = \<lparr>percentage = 5, sent = 50, received = 47\<rparr>"
    by simp
qed

theorem measurePacketLoss_paths_witness:
  "snd (measurePacketLoss lab_world (new_engine None)) = \<lparr>percentage = 6, sent = 50, received = 47\<rparr>
   \<and> snd (measurePacketLoss legacy_world (new_engine None)) = \<lparr>percentage = 5, sent = 50, received = 47\<rparr>
   \<and> round1 (100 * (real 50 - real 47) / real 50) = 6"
proof -
  have lab: "fetch_defined lab_world \<and> abort_timeout_defined lab_world"
    by (simp add: lab_world_def)
  have legacy: "\<not> (fetch_defined legacy_world \<and> abort_timeout_defined legacy_world)"
    by (simp add: legacy_world_def lab_world_def)
  have six: "round1 (100 * (real 50 - real 47) / real 50) = 6"
    by (simp add: round1_def)
  let ?r = "snd (measurePacketLoss lab_world (new_engine None))"
  from measurePacketLoss_paths [of lab_world "new_engine None"] lab
  have s: "sent ?r = 50" and r: "received ?r = 47"
    and p: "percentage ?r = round1 (100 * (real (sent ?r) - real (received ?r)) / real (sent ?r))"
    by (simp_all add: Let_def fulfilled_lab)
  from p have "percentage ?r = 6"
    unfolding s r using six by simp
  with s r have "?r = \<lparr>percentage = 6, sent = 50, received = 47\<rparr>"
    by (cases ?r) simp
  moreover from measurePacketLoss_paths [of legacy_world "new_engine None"] legacy
  have "snd (measurePacketLoss legacy_world (new_engine None)) =
      \<lparr>percentage = 5, sent = 50, received = 47\<rparr>"
    by simp
  ultimately show ?thesis
    using six by simp
qed

subsection \<open>Throughput\<close>

lemma report_sample_frame [simp]:
  "config (report_sample w e ph l t p s) = config e"
  "in_flight (report_sample w e ph l t p s) = in_flight e"
  "issued (report_sample w e ph l t p s) = issued e"
  "ping_calls (report_sample w e ph l t p s) = ping_calls e"
  by (simp_all add: report_sample_def Let_def)

lemma issues_refl [simp]: "issues e [] e"
  by (simp add: issues_def)

lemma issues_trans: "issues e rs e1 \<Longrightarrow> issues e1 rs' e2 \<Longrightarrow> issues e (rs @ rs') e2"
  by (simp add: issues_def)

lemma read_chunks_frame:
  "issues e [] (fst (read_chunks w index requestStart (e, bytes, lastUpdate) chunks))"
proof (induction chunks arbitrary: e bytes lastUpdate)
  case Nil
  show ?case by simp
next
  case (Cons c chunks)
  obtain len now where c: "c = (len, now)"
    by (cases c)
  show ?case
    unfolding c using Cons.IH
    by (simp add: Let_def issues_def)
qed

lemma download_task_frame:
  "issues e (if fetch_defined w \<and> abort_timeout_defined w then [download_request (config e) u] else [])
     (fst (download_task w e (u, i)))"
proof (cases "fetch_defined w \<and> abort_timeout_defined w")
  case False
  then show ?thesis
    by (auto simp: download_task_def fetch_def AbortSignal_timeout_def Let_def)
next
  case True
  let ?r = "download_request (config e) u"
  let ?e1 = "e\<lparr>issued := issued e @ [?r], in_flight := add_mset ?r (in_flight e)\<rparr>"
  have f: "fetch w e u ''GET'' (Some (AbortSignal_timeout w (duration (config e) * 1000)))
      = Inr (?r, ?e1)"
    using True by (simp add: fetch_def AbortSignal_timeout_def download_request_def Let_def)
  have a: "issues e [?r] (await' ?e1 ?r)"
    by (simp add: issues_def await'_def)
  have rc: "issues e [?r] (fst (read_chunks w i rs (await' ?e1 ?r, b, l) chunks))" for rs b l chunks
    using issues_trans [OF a read_chunks_frame [of "await' ?e1 ?r" w i rs b l chunks]] by simp
  show ?thesis
    using True a rc
    by (simp add: download_task_def f Let_def split: download.splits stream_end.splits prod.splits)
       (metis fst_conv)
qed

lemma map_tasks_issues:
  assumes step: "\<And>e x. issues e (g (config e) x) (fst (f e x))"
  shows "issues e (concat (map (g (config e)) xs)) (fst (map_tasks f e xs))
         \<and> length (snd (map_tasks f e xs)) = length xs"
proof (induction xs arbitrary: e)
  case Nil
  show ?case by simp
next
  case (Cons x xs)
  obtain e1 y where fx: "f e x = (e1, y)"
    by (cases "f e x")
  obtain e2 ys where rest: "map_tasks f e1 xs = (e2, ys)"
    by (cases "map_tasks f e1 xs")
  from step [of e x] fx have s1: "issues e (g (config e) x) e1"
    by simp
  then have c: "config e1 = config e"
    by (simp add: issues_def)
  from Cons.IH [of e1] rest c
  have s2: "issues e1 (concat (map (g (config e)) xs)) e2" and l: "length ys = length xs"
    by simp_all
  from issues_trans [OF s1 s2] l show ?case
    by (simp add: fx rest)
qed

lemma aggregate_Inr: "\<exists>v. aggregate results synthetic = Inr v"
proof (cases "filter (\<lambda>speed. speed > 0) results = []")
  case True
  then show ?thesis
    by (simp add: aggregate_def)
next
  case False
  then show ?thesis
    by (simp add: aggregate_def reduce_add_nonempty Let_def)
qed

lemma js_Array_error: "js_Array x = Inl err \<Longrightarrow> err = RangeError"
  by (simp add: js_Array_def split: if_splits)

lemma testUrls_eq:
  "js_Array (parallelConnections c) = Inr n \<Longrightarrow> testUrls c = Inr (map download_url [0..<n])"
  by (simp add: testUrls_def)

lemma zip_map_same: "zip (map f xs) xs = map (\<lambda>x. (f x, x)) xs"
  by (induction xs) simp_all

lemma measureDownloadSpeed_fails:
  assumes "js_Array (parallelConnections (config e)) = Inl err"
  shows "measureDownloadSpeed w e = (e, Inl RangeError)"
  using assms js_Array_error [OF assms] by (simp add: measureDownloadSpeed_def testUrls_def)

lemma measureDownloadSpeed_ok:
  assumes n: "js_Array (parallelConnections (config e)) = Inr n"
  shows "\<exists>e' v. measureDownloadSpeed w e = (e', Inr v)
           \<and> issues e (if fetch_defined w \<and> abort_timeout_defined w
                        then map (\<lambda>i. download_request (config e) (download_url i)) [0..<n]
                        else []) e'"
proof -
  let ?g = "\<lambda>c (task :: string \<times> nat).
      if fetch_defined w \<and> abort_timeout_defined w then [download_request c (fst task)] else []"
  let ?tasks = "zip (map download_url [0..<n]) [0..<length (map download_url [0..<n])]"
  have step: "issues e (?g (config e) x) (fst (download_task w e x))" for e x
    using download_task_frame [of e w "fst x" "snd x"] by simp
  obtain e1 results where run: "map_tasks (download_task w) e ?tasks = (e1, results)"
    by (cases "map_tasks (download_task w) e ?tasks")
  from map_tasks_issues [of ?g "download_task w" e ?tasks, OF step] run
  have "issues e (concat (map (?g (config e)) ?tasks)) e1"
    by simp
  moreover have "concat (map (?g (config e)) ?tasks) =
      (if fetch_defined w \<and> abort_timeout_defined w
       then map (\<lambda>i. download_request (config e) (download_url i)) [0..<n] else [])"
    by (simp add: zip_map_same comp_def)
  ultimately have frame: "issues e (if fetch_defined w \<and> abort_timeout_defined w
       then map (\<lambda>i. download_request (config e) (download_url i)) [0..<n] else []) e1"
    by simp
  obtain v where "aggregate results (Math_random w DownloadDraw * 100 + 25) = Inr v"
    using aggregate_Inr by blast
  then have "measureDownloadSpeed w e = (e1, Inr v)"
    by (simp only: measureDownloadSpeed_def testUrls_eq [OF n] sum.case run prod.case)
  with frame show ?thesis
    by blast
qed

lemma upload_task_frame:
  "issues e (if fetch_defined w \<and> abort_timeout_defined w \<and> upload_net w i \<noteq> CryptoThrew
             then [upload_request (config e) i] else [])
     (fst (upload_task w e i))"
  by (cases "upload_net w i")
     (auto simp: upload_task_def fetch_def AbortSignal_timeout_def upload_request_def Let_def
        issues_def await'_def)

lemma js_Array_real: "js_Array x = Inr n \<Longrightarrow> x = real n"
  by (auto simp: js_Array_def split: if_splits)

lemma js_Array_min:
  assumes "js_Array x = Inr n"
  shows "js_Array (min x 3) = Inr (min n 3)"
proof -
  from js_Array_real [OF assms] have "min x 3 = real (min n 3)"
    by (simp add: min_def)
  moreover have "js_Array (real (min n 3)) = Inr (min n 3)"
    by (simp add: js_Array_def min_def)
  ultimately show ?thesis
    by simp
qed


lemma measureUploadSpeed_fails:
  assumes "js_Array (min (parallelConnections (config e)) 3) = Inl err"
  shows "measureUploadSpeed w e = (e, Inl RangeError)"
  using assms js_Array_error [OF assms] by (simp add: measureUploadSpeed_def upload_indices_def)

lemma measureUploadSpeed_ok:
  assumes m: "js_Array (min (parallelConnections (config e)) 3) = Inr m"
  shows "\<exists>e' v. measureUploadSpeed w e = (e', Inr v)
           \<and> issues e (concat (map (\<lambda>i. if fetch_defined w \<and> abort_timeout_defined w
                                              \<and> upload_net w i \<noteq> CryptoThrew
                                           then [upload_request (config e) i] else []) [0..<m])) e'"
proof -
  let ?g = "\<lambda>c i. if fetch_defined w \<and> abort_timeout_defined w \<and> upload_net w i \<noteq> CryptoThrew
                  then [upload_request c i] else []"
  have idx: "upload_indices (config e) = Inr [0..<m]"
    by (simp add: upload_indices_def m)
  obtain e1 results where run: "map_tasks (upload_task w) e [0..<m] = (e1, results)"
    by (cases "map_tasks (upload_task w) e [0..<m]")
  from map_tasks_issues [of ?g "upload_task w" e "[0..<m]", OF upload_task_frame] run
  have frame: "issues e (concat (map (?g (config e)) [0..<m])) e1"
    by simp
  obtain v where "aggregate results (Math_random w UploadDraw * 40 + 10) = Inr v"
    using aggregate_Inr by blast
  then have "measureUploadSpeed w e = (e1, Inr v)"
    by (simp only: measureUploadSpeed_def idx sum.case run prod.case)
  with frame show ?thesis
    by blast
qed





lemma lab_platform:
  "fetch_defined lab_world" "abort_timeout_defined lab_world"
  "\<And>i. upload_net lab_world i \<noteq> CryptoThrew"
  by (simp_all add: lab_world_def)



subsection \<open>The orchestrator, geolocation and cancellation\<close>

lemma quickPing_frame: "issues e (quick_requests w u) (fst (quickPing w e u))"
  by (simp add: quickPing_def fetch_def AbortSignal_timeout_def await'_def issues_def
      quick_requests_def Let_def split: probe.splits)

lemma probe_server_frame: "issues e (quick_requests w (host c)) (fst (probe_server w e c))"
  using quickPing_frame [of e w "host c"]
  by (cases "quickPing w e (host c)") (auto simp: probe_server_def split: sum.splits)

lemma findBestServer_ok:
  "\<exists>e1 best. findBestServer w e = (e1, Inr best)
     \<and> issues e (quick_requests w (host (servers ! 0)) @ quick_requests w (host (servers ! 1))) e1"
proof -
  let ?g = "\<lambda>(c :: TestConfig) server. quick_requests w (host server)"
  obtain e1 ss where run: "map_tasks (probe_server w) e (take 2 servers) = (e1, ss)"
    by (cases "map_tasks (probe_server w) e (take 2 servers)")
  from map_tasks_issues [of ?g "probe_server w" e "take 2 servers", OF probe_server_frame] run
  have frame: "issues e (concat (map (\<lambda>server. quick_requests w (host server)) (take 2 servers))) e1"
    and len: "length ss = length (take 2 servers)"
    by simp_all
  from len have "ss \<noteq> []"
    by (auto simp: servers_def)
  then obtain s rest where "ss = s # rest"
    by (cases ss) auto
  then have "\<exists>best. reduce_best ss = Inr best"
    by simp
  then obtain best where "findBestServer w e = (e1, Inr best)"
    by (auto simp: findBestServer_def run)
  moreover from frame
  have "issues e (quick_requests w (host (servers ! 0)) @ quick_requests w (host (servers ! 1))) e1"
    by (simp add: servers_take2)
  ultimately show ?thesis
    by blast
qed

lemma getUserLocation_frame: "issues e (lookup_requests w) (fst (getUserLocation w e))"
  by (simp add: getUserLocation_def fetch_def AbortSignal_timeout_def await'_def issues_def
      lookup_requests_def Let_def split: lookup.splits)

lemma measureJitter_Inr: "\<exists>v. measureJitter w pings = Inr v"
proof (cases "length pings < 2")
  case True
  then show ?thesis
    by (simp add: measureJitter_def)
next
  case False
  then have "map (\<lambda>i. \<bar>pings ! i - pings ! (i - 1)\<bar>) [1..<length pings] \<noteq> []"
    by auto
  from reduce_add_nonempty [OF this] False show ?thesis
    by (simp add: measureJitter_def Let_def)
qed

lemma bufferbloat_try_throws:
  assumes "\<not> fetch_defined w"
  shows "bufferbloat_try w e basePing = (e, Inl ReferenceError)"
  using assms by (simp add: bufferbloat_try_def create_load_eq)

lemma measureBufferbloat_frame:
  "\<exists>e' b. measureBufferbloat w e basePing = (e', b) \<and> config e' = config e
      \<and> set (issued e') \<subseteq> set (issued e) \<union> {load_request} \<union> set (ping_requests w)"
proof (cases "enableBufferbloat (config e)")
  case False
  then show ?thesis
    by (auto simp: measureBufferbloat_def)
next
  case True
  show ?thesis
  proof (cases "fetch_defined w")
    case True
    with measureBufferbloat_enabled [OF \<open>enableBufferbloat (config e)\<close> True, of basePing]
    show ?thesis
      by auto
  next
    case False
    with \<open>enableBufferbloat (config e)\<close> show ?thesis
      by (auto simp: measureBufferbloat_def bufferbloat_try_throws)
  qed
qed

lemma measurePacketLoss_frame:
  "\<exists>e' l. measurePacketLoss w e = (e', l) \<and> config e' = config e
      \<and> set (issued e') \<subseteq> set (issued e) \<union> loss_request w ` {0..<totalPackets}"
proof (cases "fetch_defined w \<and> abort_timeout_defined w")
  case True
  from measurePacketLoss_ok [OF True, of e] show ?thesis
    by auto
next
  case False
  from measurePacketLoss_fallback [OF False, of e] show ?thesis
    by auto
qed

lemma unobserved_issues:
  "issues e rs e' \<Longrightarrow> list_all (\<lambda>r. \<not> observes_abort r) rs \<Longrightarrow> unobserved e \<Longrightarrow> unobserved e'"
  by (simp add: issues_def unobserved_def)

lemma unobserved_subset:
  "set (issued e') \<subseteq> set (issued e) \<union> S \<Longrightarrow> \<forall>r\<in>S. \<not> observes_abort r
     \<Longrightarrow> unobserved e \<Longrightarrow> unobserved e'"
  by (auto simp: unobserved_def list_all_iff)

lemma unobserved_updateProgress [simp]: "unobserved (updateProgress w e ph p s) = unobserved e"
  by (simp add: unobserved_def)

lemma timed_requests:
  "list_all (\<lambda>r. \<not> observes_abort r) (quick_requests w u)"
  "list_all (\<lambda>r. \<not> observes_abort r) (ping_requests w)"
  "list_all (\<lambda>r. \<not> observes_abort r) (lookup_requests w)"
  "\<not> observes_abort (download_request c u)"
  "\<not> observes_abort (upload_request c i)"
  "\<not> observes_abort (loss_request w i)"
  "\<not> observes_abort load_request"
  by (simp_all add: observes_abort_def quick_requests_def ping_requests_def lookup_requests_def
      download_request_def upload_request_def loss_request_def load_request_def)

lemma runSpeedTest_try_fails:
  assumes bad: "js_Array (parallelConnections (config e)) = Inl err"
  shows "\<exists>e'. runSpeedTest_try w e = (e', Inl RangeError) \<and> config e' = config e
           \<and> (unobserved e \<longrightarrow> unobserved e')"
proof -
  let ?a = "updateProgress w e Ping 10 0"
  obtain e1 best where fb: "findBestServer w ?a = (e1, Inr best)"
    and f1: "issues ?a (quick_requests w (host (servers ! 0)) @ quick_requests w (host (servers ! 1))) e1"
    using findBestServer_ok [of w ?a] by blast
  let ?b = "updateProgress w e1 Ping 30 0"
  let ?k = "ping_calls ?b"
  let ?pings = "[ping_mean w ?k, ping_mean w (?k + 1), ping_mean w (?k + 2),
      ping_mean w (?k + 3), ping_mean w (?k + 4)]"
  obtain e2 where loop: "foldl (ping_step w Ping 30 20) (?b, Inr []) [0, 1, 2, 3, 4] = (e2, Inr ?pings)"
    and f2: "config e2 = config ?b" "set (issued e2) = set (issued ?b) \<union> set (ping_requests w)"
    using ping_loop [of w Ping 30 20 ?b] by blast
  obtain s where ra: "reduce_add ?pings = Inr s"
    by simp
  obtain jit where jit: "measureJitter w ?pings = Inr jit"
    using measureJitter_Inr by blast
  let ?c = "updateProgress w e2 Download 0 0"
  from f1 f2 have c1: "config e1 = config e" and c2: "config e2 = config e"
    by (simp_all add: issues_def)
  from bad c2 have "js_Array (parallelConnections (config ?c)) = Inl err"
    by simp
  from measureDownloadSpeed_fails [OF this, of w]
  have dl: "measureDownloadSpeed w ?c = (?c, Inl RangeError)" .
  have result: "runSpeedTest_try w e = (?c, Inl RangeError)"
    by (simp only: runSpeedTest_try_def fb prod.case sum.case loop ra Let_def jit dl)
  have u1: "unobserved e1" if "unobserved e"
    using unobserved_issues [OF f1] that by (simp add: timed_requests)
  have pr: "\<forall>r\<in>set (ping_requests w). \<not> observes_abort r"
    using timed_requests(2) [of w] by (simp add: list_all_iff)
  have u2: "unobserved e2" if "unobserved e1"
    using unobserved_subset [of e2 ?b "set (ping_requests w)", OF _ pr] f2 that by simp
  from result c2 u1 u2 show ?thesis
    by auto
qed

lemma runSpeedTest_try_ok:
  assumes good: "js_Array (parallelConnections (config e)) = Inr n"
  shows "\<exists>e7 res ea best eb ec.
           runSpeedTest_try w e = (updateProgress w e7 Complete 100 0, Inr res)
           \<and> config e7 = config e \<and> (unobserved e \<longrightarrow> unobserved e7)
           \<and> packetLoss res = Some (snd (measurePacketLoss w eb))
           \<and> snd (findBestServer w ea) = Inr best \<and> serverLocation res = location best
           \<and> userLocation res = snd (getUserLocation w ec)
           \<and> (bufferbloat res = None) = (\<not> enableBufferbloat (config e))"
proof -
  let ?a = "updateProgress w e Ping 10 0"
  obtain e1 best where fb: "findBestServer w ?a = (e1, Inr best)"
    and f1: "issues ?a (quick_requests w (host (servers ! 0)) @ quick_requests w (host (servers ! 1))) e1"
    using findBestServer_ok [of w ?a] by blast
  let ?b = "updateProgress w e1 Ping 30 0"
  let ?k = "ping_calls ?b"
  let ?pings = "[ping_mean w ?k, ping_mean w (?k + 1), ping_mean w (?k + 2),
      ping_mean w (?k + 3), ping_mean w (?k + 4)]"
  obtain e2 where loop: "foldl (ping_step w Ping 30 20) (?b, Inr []) [0, 1, 2, 3, 4] = (e2, Inr ?pings)"
    and f2: "config e2 = config ?b" "set (issued e2) = set (issued ?b) \<union> set (ping_requests w)"
    using ping_loop [of w Ping 30 20 ?b] by blast
  obtain s where ra: "reduce_add ?pings = Inr s"
    by simp
  obtain jit where jit: "measureJitter w ?pings = Inr jit"
    using measureJitter_Inr by blast
  from f1 f2 have c1: "config e1 = config e" and c2: "config e2 = config e"
    by (simp_all add: issues_def)
  let ?c = "updateProgress w e2 Download 0 0"
  from good c2 have gc: "js_Array (parallelConnections (config ?c)) = Inr n"
    by simp
  obtain e3 down where dl: "measureDownloadSpeed w ?c = (e3, Inr down)"
    and f3: "issues ?c (if fetch_defined w \<and> abort_timeout_defined w
                        then map (\<lambda>i. download_request (config ?c) (download_url i)) [0..<n]
                        else []) e3"
    using measureDownloadSpeed_ok [OF gc, of w] by blast
  from f3 c2 have c3: "config e3 = config e"
    by (simp add: issues_def)
  let ?d = "updateProgress w e3 Upload 0 0"
  from good c3 have gd: "js_Array (min (parallelConnections (config ?d)) 3) = Inr (min n 3)"
    by (simp add: js_Array_min)
  obtain e4 up where ul: "measureUploadSpeed w ?d = (e4, Inr up)"
    and f4: "issues ?d (concat (map (\<lambda>i. if fetch_defined w \<and> abort_timeout_defined w
                                              \<and> upload_net w i \<noteq> CryptoThrew
                                           then [upload_request (config ?d) i] else [])
                                    [0..<min n 3])) e4"
    using measureUploadSpeed_ok [OF gd, of w] by blast
  from f4 c3 have c4: "config e4 = config e"
    by (simp add: issues_def)
  let ?f = "updateProgress w e4 PacketLoss 0 0"
  obtain e5 loss where pl: "measurePacketLoss w ?f = (e5, loss)"
    and f5: "config e5 = config ?f"
      "set (issued e5) \<subseteq> set (issued ?f) \<union> loss_request w ` {0..<totalPackets}"
    using measurePacketLoss_frame [of w ?f] by blast
  from f5 c4 have c5: "config e5 = config e"
    by simp
  let ?avg = "s / real (length ?pings)"
  obtain e6' b where mb: "measureBufferbloat w e5 ?avg = (e6', b)"
    and f6: "config e6' = config e5"
      "set (issued e6') \<subseteq> set (issued e5) \<union> {load_request} \<union> set (ping_requests w)"
    using measureBufferbloat_frame [of w e5 ?avg] by blast
  let ?e6 = "if enableBufferbloat (config e5) then e6' else e5"
  let ?bloat = "if enableBufferbloat (config e5) then Some b else None"
  have bl: "(if enableBufferbloat (config e5)
             then (case measureBufferbloat w e5 ?avg of (e6, b) \<Rightarrow> (e6, Some b))
             else (e5, None)) = (?e6, ?bloat)"
    by (cases "enableBufferbloat (config e5)") (simp_all only: mb prod.case if_True if_False)
  have c6: "config ?e6 = config e"
    using f6 c5 by simp
  obtain e7 loc where gl: "getUserLocation w ?e6 = (e7, loc)"
    by (cases "getUserLocation w ?e6")
  from getUserLocation_frame [of ?e6 w] gl have f7: "issues ?e6 (lookup_requests w) e7"
    by simp
  with c6 have c7: "config e7 = config e"
    by (simp add: issues_def)
  define res where "res = \<lparr>id_result = show_nat (run_date_now w 0), timestamp = run_date_now w 1,
      downloadSpeed = round1 down, uploadSpeed = round1 up, ping = round1 ?avg,
      jitter = round1 jit, serverLocation = location best, userLocation = loc,
      testDuration = (run_endTime w - run_startTime w) / 1000, bufferbloat = ?bloat,
      packetLoss = Some loss\<rparr>"
  have result: "runSpeedTest_try w e = (updateProgress w e7 Complete 100 0, Inr res)"
    by (simp only: runSpeedTest_try_def fb prod.case sum.case loop ra Let_def jit dl ul pl bl gl
        res_def)
  have u1: "unobserved e1" if "unobserved e"
    using unobserved_issues [OF f1] that by (simp add: timed_requests)
  have pr: "\<forall>r\<in>set (ping_requests w). \<not> observes_abort r"
    using timed_requests(2) [of w] by (simp add: list_all_iff)
  have u2: "unobserved e2" if "unobserved e1"
    using unobserved_subset [of e2 ?b "set (ping_requests w)", OF _ pr] f2 that by simp
  have "list_all (\<lambda>r. \<not> observes_abort r)
      (if fetch_defined w \<and> abort_timeout_defined w
       then map (\<lambda>i. download_request (config ?c) (download_url i)) [0..<n] else [])"
    by (auto simp: timed_requests list_all_iff)
  from unobserved_issues [OF f3 this] have u3: "unobserved e3" if "unobserved e2"
    using that by simp
  have "list_all (\<lambda>r. \<not> observes_abort r)
      (concat (map (\<lambda>i. if fetch_defined w \<and> abort_timeout_defined w
                             \<and> upload_net w i \<noteq> CryptoThrew
                          then [upload_request (config ?d) i] else []) [0..<min n 3]))"
    by (auto simp: timed_requests list_all_iff)
  from unobserved_issues [OF f4 this] have u4: "unobserved e4" if "unobserved e3"
    using that by simp
  have lr: "\<forall>r\<in>loss_request w ` {0..<totalPackets}. \<not> observes_abort r"
    by (simp add: timed_requests)
  have u5: "unobserved e5" if "unobserved e4"
    using unobserved_subset [of e5 ?f "loss_request w ` {0..<totalPackets}", OF f5(2) lr] that
    by simp
  have br: "\<forall>r\<in>{load_request} \<union> set (ping_requests w). \<not> observes_abort r"
    using pr by (simp add: timed_requests)
  have u6': "unobserved e6'" if "unobserved e5"
    using unobserved_subset [of e6' e5 "{load_request} \<union> set (ping_requests w)", OF _ br] f6(2) that
    by (simp add: Un_assoc)
  have u6: "unobserved ?e6" if "unobserved e5"
    using u6' that by simp
  have u7: "unobserved e7" if "unobserved ?e6"
    using unobserved_issues [OF f7] that by (simp add: timed_requests)
  have u: "unobserved e \<longrightarrow> unobserved e7"
    using u1 u2 u3 u4 u5 u6 u7 by blast
  have fields: "packetLoss res = Some (snd (measurePacketLoss w ?f))"
    "snd (findBestServer w ?a) = Inr best" "serverLocation res = location best"
    "(bufferbloat res = None) = (\<not> enableBufferbloat (config e))"
    by (simp_all add: res_def pl fb c5)
  have loc: "userLocation res = snd (getUserLocation w ?e6)"
    unfolding gl by (simp add: res_def)
  show ?thesis
    apply (rule exI [of _ e7], rule exI [of _ res], rule exI [of _ ?a], rule exI [of _ best])
    apply (rule exI [of _ ?f], rule exI [of _ ?e6])
    apply (intro conjI)
    apply (rule result, rule c7, rule u, rule fields(1), rule fields(2), rule fields(3))
    apply (rule loc, rule fields(4))
    done
qed


lemma runSpeedTest_success:
  assumes good: "js_Array (parallelConnections (config e)) = Inr n"
  shows "\<exists>e7 res ea best eb ec.
           runSpeedTest w e = (updateProgress w e7 Complete 100 0, res)
           \<and> config e7 = config e \<and> (unobserved e \<longrightarrow> unobserved e7)
           \<and> packetLoss res = Some (snd (measurePacketLoss w eb))
           \<and> snd (findBestServer w ea) = Inr best \<and> serverLocation res = location best
           \<and> userLocation res = snd (getUserLocation w ec)
           \<and> (bufferbloat res = None) = (\<not> enableBufferbloat (config e))"
proof -
  let ?e0 = "e\<lparr>abortController := Some False, graphData := []\<rparr>"
  have c: "config ?e0 = config e" and u: "unobserved ?e0 = unobserved e"
    by (simp_all add: unobserved_def)
  from good have "js_Array (parallelConnections (config ?e0)) = Inr n"
    by simp
  from runSpeedTest_try_ok [OF this, of w]
  obtain e7 res ea best eb ec where
    attempt: "runSpeedTest_try w ?e0 = (updateProgress w e7 Complete 100 0, Inr res)"
    and rest: "config e7 = config ?e0" "unobserved ?e0 \<longrightarrow> unobserved e7"
      "packetLoss res = Some (snd (measurePacketLoss w eb))"
      "snd (findBestServer w ea) = Inr best" "serverLocation res = location best"
      "userLocation res = snd (getUserLocation w ec)"
      "(bufferbloat res = None) = (\<not> enableBufferbloat (config ?e0))"
    by (elim exE conjE)
  have run: "runSpeedTest w e = (updateProgress w e7 Complete 100 0, res)"
    by (simp only: runSpeedTest_def attempt prod.case sum.case)
  show ?thesis
    apply (rule exI [of _ e7], rule exI [of _ res], rule exI [of _ ea], rule exI [of _ best])
    apply (rule exI [of _ eb], rule exI [of _ ec])
    using run rest c u apply simp
    done
qed

lemma runSpeedTest_fallback:
  assumes bad: "js_Array (parallelConnections (config e)) = Inl err"
  shows "\<exists>e2 ec.
           runSpeedTest w e =
             (updateProgress w e2 Complete 100 0,
              \<lparr>id_result = show_nat (run_date_now w 0),
               timestamp = run_date_now w 1,
               downloadSpeed = round1 (Math_random w (FallbackDraw 0) * 80 + 25),
               uploadSpeed = round1 (Math_random w (FallbackDraw 1) * 30 + 10),
               ping = round1 (Math_random w (FallbackDraw 2) * 40 + 15),
               jitter = round1 (Math_random w (FallbackDraw 3) * 8 + 2),
               serverLocation = ''Global CDN'',
               userLocation = snd (getUserLocation w ec),
               testDuration = (run_endTime w - run_startTime w) / 1000,
               bufferbloat =
                 (if enableBufferbloat (config e)
                  then Some \<lparr>rating = B, latencyIncrease = 35\<rparr> else None),
               packetLoss = Some \<lparr>percentage = 2, sent = 50, received = 49\<rparr>\<rparr>)
           \<and> config e2 = config e \<and> (unobserved e \<longrightarrow> unobserved e2)"
proof -
  let ?e0 = "e\<lparr>abortController := Some False, graphData := []\<rparr>"
  have c: "config ?e0 = config e" and u: "unobserved ?e0 = unobserved e"
    by (simp_all add: unobserved_def)
  from bad have "js_Array (parallelConnections (config ?e0)) = Inl err"
    by simp
  from runSpeedTest_try_fails [OF this, of w]
  obtain e1 where attempt: "runSpeedTest_try w ?e0 = (e1, Inl RangeError)"
    and f1: "config e1 = config ?e0" "unobserved ?e0 \<longrightarrow> unobserved e1"
    by blast
  obtain e2 loc where gl: "getUserLocation w e1 = (e2, loc)"
    by (cases "getUserLocation w e1")
  from getUserLocation_frame [of e1 w] gl have f2: "issues e1 (lookup_requests w) e2"
    by simp
  then have c2: "config e2 = config e"
    using f1 c by (simp add: issues_def)
  have u2: "unobserved e \<longrightarrow> unobserved e2"
    using unobserved_issues [OF f2 timed_requests(3)] f1 u by simp
  have loc: "loc = snd (getUserLocation w e1)"
    by (simp add: gl)
  have "runSpeedTest w e =
             (updateProgress w e2 Complete 100 0,
              \<lparr>id_result = show_nat (run_date_now w 0),
               timestamp = run_date_now w 1,
               downloadSpeed = round1 (Math_random w (FallbackDraw 0) * 80 + 25),
               uploadSpeed = round1 (Math_random w (FallbackDraw 1) * 30 + 10),
               ping = round1 (Math_random w (FallbackDraw 2) * 40 + 15),
               jitter = round1 (Math_random w (FallbackDraw 3) * 8 + 2),
               serverLocation = ''Global CDN'',
               userLocation = snd (getUserLocation w e1),
               testDuration = (run_endTime w - run_startTime w) / 1000,
               bufferbloat =
                 (if enableBufferbloat (config e)
                  then Some \<lparr>rating = B, latencyIncrease = 35\<rparr> else None),
               packetLoss = Some \<lparr>percentage = 2, sent = 50, received = 49\<rparr>\<rparr>)"
    by (simp only: runSpeedTest_def attempt prod.case sum.case gl c2 loc [symmetric]) simp
  with c2 u2 show ?thesis
    by blast
qed





lemma getUserLocation_result:
  "snd (getUserLocation w e) =
     (if fetch_defined w \<and> abort_timeout_defined w then
        (case lookup_net w of
           JsonData c n a \<Rightarrow>
             \<lparr>city = or_default c ''Unknown City'', country = or_default n ''Unknown Country'',
              ip = or_default a ''127.0.0.1''\<rparr>
         | _ \<Rightarrow> \<lparr>city = JStr ''Your City'', country = JStr ''Your Country'',
                ip = JStr ''127.0.0.1''\<rparr>)
      else \<lparr>city = JStr ''Your City'', country = JStr ''Your Country'', ip = JStr ''127.0.0.1''\<rparr>)"
  by (simp add: getUserLocation_def fetch_def AbortSignal_timeout_def Let_def split: lookup.splits)

lemma getUserLocation_any_engine: "snd (getUserLocation w e) = snd (getUserLocation w e')"
  by (simp only: getUserLocation_result)

lemma or_default_truthy: "d \<noteq> [] \<Longrightarrow> truthy (Some (or_default v d))"
  by (cases v) simp_all

lemma or_default_cases:
  "(\<not> truthy v \<longrightarrow> or_default v d = JStr d) \<and> (truthy v \<longrightarrow> Some (or_default v d) = v)"
  by (cases v) simp_all

lemma runSpeedTest_userLocation:
  "userLocation (snd (runSpeedTest w e)) = snd (getUserLocation w e)"
proof (cases "js_Array (parallelConnections (config e))")
  case (Inr n)
  from runSpeedTest_success [OF Inr, of w]
  obtain res ec e7 where "runSpeedTest w e = (updateProgress w e7 Complete 100 0, res)"
    "userLocation res = snd (getUserLocation w ec)"
    by blast
  then show ?thesis
    using getUserLocation_any_engine [of w ec e] by simp
next
  case (Inl err)
  from runSpeedTest_fallback [OF Inl, of w]
  obtain res ec e2 where "runSpeedTest w e = (updateProgress w e2 Complete 100 0, res)"
    "userLocation res = snd (getUserLocation w ec)"
    by force
  then show ?thesis
    using getUserLocation_any_engine [of w ec e] by simp
qed

text \<open>
  Claim C10. \<open>getUserLocation\<close> never throws and returns a record whose three fields are
  populated (truthy). On a successful lookup a field that is missing (or falsy) in the
  response is replaced by its own default, \<open>Unknown City\<close>, \<open>Unknown Country\<close> or
  \<open>127.0.0.1\<close>; when the lookup as a whole fails the result is \<open>Your City\<close>,
  \<open>Your Country\<close>, \<open>127.0.0.1\<close>. Either shape is what \<open>runSpeedTest\<close> puts into the
  result's \<open>userLocation\<close>.
\<close>

theorem getUserLocation_placeholders:
  "truthy (Some (city (snd (getUserLocation w e))))
   \<and> truthy (Some (country (snd (getUserLocation w e))))
   \<and> truthy (Some (ip (snd (getUserLocation w e))))
   \<and> (fetch_defined w \<and> abort_timeout_defined w \<and> lookup_net w = JsonData c n a \<longrightarrow>
        (\<not> truthy c \<longrightarrow> city (snd (getUserLocation w e)) = JStr ''Unknown City'')
        \<and> (truthy c \<longrightarrow> Some (city (snd (getUserLocation w e))) = c)
        \<and> (\<not> truthy n \<longrightarrow> country (snd (getUserLocation w e)) = JStr ''Unknown Country'')
        \<and> (truthy n \<longrightarrow> Some (country (snd (getUserLocation w e))) = n)
        \<and> (\<not> truthy a \<longrightarrow> ip (snd (getUserLocation w e)) = JStr ''127.0.0.1'')
        \<and> (truthy a \<longrightarrow> Some (ip (snd (getUserLocation w e))) = a))
   \<and> (\<not> fetch_defined w \<or> \<not> abort_timeout_defined w \<or> lookup_net w = LookupRejected
        \<or> lookup_net w = JsonRejected \<or> lookup_net w = JsonNull \<longrightarrow>
        snd (getUserLocation w e) =
          \<lparr>city = JStr ''Your City'', country = JStr ''Your Country'', ip = JStr ''127.0.0.1''\<rparr>)
   \<and> userLocation (snd (runSpeedTest w e)) = snd (getUserLocation w e)"
proof -
  have populated: "truthy (Some (city (snd (getUserLocation w e))))
      \<and> truthy (Some (country (snd (getUserLocation w e))))
      \<and> truthy (Some (ip (snd (getUserLocation w e))))"
    by (simp add: getUserLocation_result or_default_truthy split: lookup.splits)
  have partial: "(\<not> truthy c \<longrightarrow> city (snd (getUserLocation w e)) = JStr ''Unknown City'')
        \<and> (truthy c \<longrightarrow> Some (city (snd (getUserLocation w e))) = c)
        \<and> (\<not> truthy n \<longrightarrow> country (snd (getUserLocation w e)) = JStr ''Unknown Country'')
        \<and> (truthy n \<longrightarrow> Some (country (snd (getUserLocation w e))) = n)
        \<and> (\<not> truthy a \<longrightarrow> ip (snd (getUserLocation w e)) = JStr ''127.0.0.1'')
        \<and> (truthy a \<longrightarrow> Some (ip (snd (getUserLocation w e))) = a)"
    if "fetch_defined w \<and> abort_timeout_defined w \<and> lookup_net w = JsonData c n a"
    using that or_default_cases [of c "''Unknown City''"]
      or_default_cases [of n "''Unknown Country''"] or_default_cases [of a "''127.0.0.1''"]
    by (simp add: getUserLocation_result)
  have failed: "snd (getUserLocation w e) =
          \<lparr>city = JStr ''Your City'', country = JStr ''Your Country'', ip = JStr ''127.0.0.1''\<rparr>"
    if "\<not> fetch_defined w \<or> \<not> abort_timeout_defined w \<or> lookup_net w = LookupRejected
        \<or> lookup_net w = JsonRejected \<or> lookup_net w = JsonNull"
    using that by (auto simp: getUserLocation_result)
  from populated partial failed runSpeedTest_userLocation [of w e] show ?thesis
    by blast
qed

theorem getUserLocation_placeholders_witness:
  "snd (getUserLocation lab_world (new_engine None)) =
     \<lparr>city = JStr ''Paris'', country = JStr ''Unknown Country'', ip = JStr ''127.0.0.1''\<rparr>
   \<and> userLocation (snd (runSpeedTest lab_world (new_engine None))) =
       \<lparr>city = JStr ''Paris'', country = JStr ''Unknown Country'', ip = JStr ''127.0.0.1''\<rparr>
   \<and> userLocation (snd (runSpeedTest unreachable_world (new_engine None))) =
       \<lparr>city = JStr ''Your City'', country = JStr ''Your Country'', ip = JStr ''127.0.0.1''\<rparr>"
proof -
  let ?l = "snd (getUserLocation lab_world (new_engine None))"
  have lab: "fetch_defined lab_world \<and> abort_timeout_defined lab_world
      \<and> lookup_net lab_world = JsonData (Some (JStr ''Paris'')) None None"
    by (simp add: lab_world_def)
  from getUserLocation_placeholders
    [of lab_world "new_engine None" "Some (JStr ''Paris'')" None None] lab
  have "city ?l = JStr ''Paris''" "country ?l = JStr ''Unknown Country''"
    "ip ?l = JStr ''127.0.0.1''"
    and run: "userLocation (snd (runSpeedTest lab_world (new_engine None))) = ?l"
    by simp_all
  then have l: "?l = \<lparr>city = JStr ''Paris'', country = JStr ''Unknown Country'',
      ip = JStr ''127.0.0.1''\<rparr>"
    by (cases ?l) simp
  have "lookup_net unreachable_world = LookupRejected"
    by (simp add: unreachable_world_def)
  with getUserLocation_placeholders [of unreachable_world "new_engine None" None None None]
  have "userLocation (snd (runSpeedTest unreachable_world (new_engine None))) =
       \<lparr>city = JStr ''Your City'', country = JStr ''Your Country'', ip = JStr ''127.0.0.1''\<rparr>"
    by simp
  with l run show ?thesis
    by simp
qed

lemma read_chunks_bytes:
  "snd (read_chunks w index requestStart (e, bytes, lastUpdate) chunks) =
     bytes + sum_list (map fst chunks)"
proof (induction chunks arbitrary: e bytes lastUpdate)
  case Nil
  show ?case by simp
next
  case (Cons c chunks)
  obtain len now where c: "c = (len, now)"
    by (cases c)
  show ?case
    unfolding c by (simp add: Let_def Cons.IH)
qed

lemma download_task_result: "snd (download_task w e (u, i)) = download_rate w i"
proof (cases "fetch_defined w \<and> abort_timeout_defined w")
  case False
  then show ?thesis
    by (auto simp: download_task_def download_rate_def fetch_def AbortSignal_timeout_def Let_def)
next
  case True
  let ?r = "download_request (config e) u"
  let ?e1 = "e\<lparr>issued := issued e @ [?r], in_flight := add_mset ?r (in_flight e)\<rparr>"
  have f: "fetch w e u ''GET'' (Some (AbortSignal_timeout w (duration (config e) * 1000)))
      = Inr (?r, ?e1)"
    using True by (simp add: fetch_def AbortSignal_timeout_def download_request_def Let_def)
  have rc: "snd (read_chunks w i rs (await' ?e1 ?r, 0, l) chunks) = sum_list (map fst chunks)"
    for rs l chunks
    by (simp add: read_chunks_bytes)
  show ?thesis
    using True
    by (simp add: download_task_def download_rate_def f Let_def
        split: download.splits stream_end.splits prod.splits)
       (metis rc snd_conv)
qed

lemma map_tasks_results:
  assumes "\<And>e x. snd (f e x) = h x"
  shows "snd (map_tasks f e xs) = map h xs"
proof (induction xs arbitrary: e)
  case Nil
  show ?case by simp
next
  case (Cons x xs)
  obtain e1 y where fx: "f e x = (e1, y)"
    by (cases "f e x")
  with assms [of e x] have y: "y = h x"
    by simp
  obtain e2 ys where rest: "map_tasks f e1 xs = (e2, ys)"
    by (cases "map_tasks f e1 xs")
  with Cons.IH [of e1] have "ys = map h xs"
    by simp
  with y show ?case
    by (simp add: fx rest)
qed

lemma measureDownloadSpeed_result:
  "snd (measureDownloadSpeed w e) =
     (case testUrls (config e) of
        Inl err \<Rightarrow> Inl err
      | Inr urls \<Rightarrow>
          aggregate (map (\<lambda>task. download_rate w (snd task)) (zip urls [0..<length urls]))
            (Math_random w DownloadDraw * 100 + 25))"
proof (cases "testUrls (config e)")
  case (Inl err)
  then show ?thesis
    by (simp add: measureDownloadSpeed_def)
next
  case (Inr urls)
  have "snd (download_task w e x) = download_rate w (snd x)" for e x
    using download_task_result [of w e "fst x" "snd x"] by simp
  from map_tasks_results [of "download_task w" "\<lambda>task. download_rate w (snd task)", OF this]
  have "snd (map_tasks (download_task w) e (zip urls [0..<length urls])) =
      map (\<lambda>task. download_rate w (snd task)) (zip urls [0..<length urls])" .
  then show ?thesis
    by (cases "map_tasks (download_task w) e (zip urls [0..<length urls])")
       (simp add: measureDownloadSpeed_def Inr)
qed

lemma measureDownloadSpeed_unobserved:
  assumes "unobserved e"
  shows "unobserved (fst (measureDownloadSpeed w e))"
proof (cases "js_Array (parallelConnections (config e))")
  case (Inl err)
  from measureDownloadSpeed_fails [OF Inl, of w] assms show ?thesis
    by simp
next
  case (Inr n)
  from measureDownloadSpeed_ok [OF Inr, of w]
  obtain e' v where run: "measureDownloadSpeed w e = (e', Inr v)"
    and frame: "issues e (if fetch_defined w \<and> abort_timeout_defined w
                        then map (\<lambda>i. download_request (config e) (download_url i)) [0..<n]
                        else []) e'"
    by blast
  have "list_all (\<lambda>r. \<not> observes_abort r)
      (if fetch_defined w \<and> abort_timeout_defined w
       then map (\<lambda>i. download_request (config e) (download_url i)) [0..<n] else [])"
    by (auto simp: timed_requests list_all_iff)
  from unobserved_issues [OF frame this assms] run show ?thesis
    by simp
qed

lemma measureDownloadSpeed_issued:
  assumes "config e' = config e" "issued e' = issued e"
  shows "issued (fst (measureDownloadSpeed w e')) = issued (fst (measureDownloadSpeed w e))"
proof (cases "js_Array (parallelConnections (config e))")
  case (Inl err)
  with assms have "js_Array (parallelConnections (config e')) = Inl err"
    by simp
  from measureDownloadSpeed_fails [OF this, of w] measureDownloadSpeed_fails [OF Inl, of w] assms
  show ?thesis
    by simp
next
  case (Inr n)
  with assms have "js_Array (parallelConnections (config e')) = Inr n"
    by simp
  from measureDownloadSpeed_ok [OF this, of w] measureDownloadSpeed_ok [OF Inr, of w] assms
  show ?thesis
    by (auto simp: issues_def)
qed

lemma runSpeedTest_unobserved:
  assumes "unobserved e"
  shows "unobserved (fst (runSpeedTest w e))"
proof (cases "js_Array (parallelConnections (config e))")
  case (Inr n)
  from runSpeedTest_success [OF Inr, of w] assms show ?thesis
    by force
next
  case (Inl err)
  from runSpeedTest_fallback [OF Inl, of w] assms show ?thesis
    by force
qed

text \<open>
  Claim C3, which the code breaks. \<open>abort()\<close> changes the engine's \<open>AbortController\<close> only. No request that
  \<open>measureDownloadSpeed\<close> or any other phase of \<open>runSpeedTest\<close> issues carries the
  controller's signal: each has its own \<open>AbortSignal.timeout\<close> or no signal at all. So
  the requests and the result of a download are the same whether or not \<open>abort()\<close> was
  called: no task in flight observes the cancellation.
\<close>

theorem abort_not_wired:
  "config (abort e) = config e \<and> issued (abort e) = issued e \<and> in_flight (abort e) = in_flight e
   \<and> snd (measureDownloadSpeed w (abort e)) = snd (measureDownloadSpeed w e)
   \<and> issued (fst (measureDownloadSpeed w (abort e))) = issued (fst (measureDownloadSpeed w e))
   \<and> (unobserved e \<longrightarrow> unobserved (fst (measureDownloadSpeed w e)))
   \<and> (unobserved e \<longrightarrow> unobserved (fst (runSpeedTest w e)))"
proof -
  have a: "config (abort e) = config e" "issued (abort e) = issued e"
    "in_flight (abort e) = in_flight e"
    by (simp_all add: abort_def)
  have "snd (measureDownloadSpeed w (abort e)) = snd (measureDownloadSpeed w e)"
    by (simp only: measureDownloadSpeed_result a)
  with a measureDownloadSpeed_issued [OF a(1) a(2), of w]
    measureDownloadSpeed_unobserved [of e w] runSpeedTest_unobserved [of e w]
  show ?thesis
    by blast
qed

theorem abort_not_wired_witness:
  "abortController (abort started_engine) = Some True
   \<and> map signal (issued (fst (measureDownloadSpeed lab_world (abort started_engine)))) =
       [Some (AbortTimeout 10000), Some (AbortTimeout 10000), Some (AbortTimeout 10000),
        Some (AbortTimeout 10000)]
   \<and> unobserved (fst (measureDownloadSpeed lab_world started_engine))
   \<and> unobserved (fst (runSpeedTest lab_world started_engine))"
proof -
  have s: "unobserved started_engine" "issued started_engine = []"
    "js_Array (parallelConnections (config started_engine)) = Inr 4"
    "duration (config started_engine) = 10"
    by (simp_all add: started_engine_def unobserved_def new_engine_def default_config_def
        js_Array_def)
  have four: "[0..<4] = [0, 1, 2, 3]"
    by (simp add: upt_rec)
  from measureDownloadSpeed_ok [OF s(3), of lab_world]
  have "map signal (issued (fst (measureDownloadSpeed lab_world started_engine))) =
       [Some (AbortTimeout 10000), Some (AbortTimeout 10000), Some (AbortTimeout 10000),
        Some (AbortTimeout 10000)]"
    by (auto simp: issues_def s lab_platform download_request_def four)
  moreover have "abortController (abort started_engine) = Some True"
    by (simp add: abort_def started_engine_def)
  ultimately show ?thesis
    using abort_not_wired [of started_engine lab_world] s(1) by simp
qed

subsection \<open>Joining the fan-out\<close>

lemma measureDownloadSpeed_joined: "in_flight (fst (measureDownloadSpeed w e)) = in_flight e"
proof (cases "js_Array (parallelConnections (config e))")
  case (Inl err)
  from measureDownloadSpeed_fails [OF Inl, of w] show ?thesis
    by simp
next
  case (Inr n)
  from measureDownloadSpeed_ok [OF Inr, of w] show ?thesis
    by (auto simp: issues_def)
qed

lemma measureUploadSpeed_joined: "in_flight (fst (measureUploadSpeed w e)) = in_flight e"
proof (cases "js_Array (min (parallelConnections (config e)) 3)")
  case (Inl err)
  from measureUploadSpeed_fails [OF Inl, of w] show ?thesis
    by simp
next
  case (Inr m)
  from measureUploadSpeed_ok [OF Inr, of w] show ?thesis
    by (auto simp: issues_def)
qed

lemma findBestServer_joined: "in_flight (fst (findBestServer w e)) = in_flight e"
  using findBestServer_ok [of w e] by (auto simp: issues_def)

text \<open>
  Claim C9, which the code breaks for the background downloads. Server selection, the
  download and the upload phase and \<open>measurePacketLoss\<close> return only when every request
  they created has settled: no promise of theirs is still in flight.
  \<open>measureBufferbloat\<close> returns while the three background downloads it started are
  still in flight: it collects their promises and never awaits them.
\<close>

theorem bufferbloat_loads_not_joined:
  "in_flight (fst (findBestServer w e)) = in_flight e
   \<and> in_flight (fst (measureDownloadSpeed w e)) = in_flight e
   \<and> in_flight (fst (measureUploadSpeed w e)) = in_flight e
   \<and> (fetch_defined w \<and> abort_timeout_defined w \<longrightarrow>
        in_flight (fst (measurePacketLoss w e)) = in_flight e)
   \<and> (enableBufferbloat (config e) \<and> fetch_defined w \<longrightarrow>
        in_flight (fst (measureBufferbloat w e basePing)) =
          in_flight e + {#load_request, load_request, load_request#})"
proof (intro conjI impI)
  show "in_flight (fst (findBestServer w e)) = in_flight e"
    by (rule findBestServer_joined)
  show "in_flight (fst (measureDownloadSpeed w e)) = in_flight e"
    by (rule measureDownloadSpeed_joined)
  show "in_flight (fst (measureUploadSpeed w e)) = in_flight e"
    by (rule measureUploadSpeed_joined)
next
  assume ok: "fetch_defined w \<and> abort_timeout_defined w"
  from measurePacketLoss_ok [OF ok, of e]
  show "in_flight (fst (measurePacketLoss w e)) = in_flight e"
    by auto
next
  assume "enableBufferbloat (config e) \<and> fetch_defined w"
  with measureBufferbloat_enabled [of e w basePing]
  show "in_flight (fst (measureBufferbloat w e basePing)) =
          in_flight e + {#load_request, load_request, load_request#}"
    by auto
qed

theorem bufferbloat_loads_not_joined_witness:
  "in_flight (fst (measurePacketLoss lab_world (new_engine None))) = {#}
   \<and> in_flight (fst (measureDownloadSpeed lab_world (new_engine None))) = {#}
   \<and> in_flight (fst (measureBufferbloat lab_world (new_engine None) 20)) =
       {#load_request, load_request, load_request#}
   \<and> in_flight (fst (measureBufferbloat lab_world (new_engine None) 20)) \<noteq> {#}"
proof -
  have "fetch_defined lab_world \<and> abort_timeout_defined lab_world"
    "enableBufferbloat (config (new_engine None))" "in_flight (new_engine None) = {#}"
    by (simp_all add: lab_world_def new_engine_def default_config_def)
  with bufferbloat_loads_not_joined [of lab_world "new_engine None" 20]
  show ?thesis
    by simp
qed

end
